theory Spec2Isabelle
  imports Main "HOL-Library.Char_ord" "HOL-Library.List_Lexorder" "HOL-Library.Product_Lexorder"
begin

section \<open>Data model\<close>

text \<open>
  The script \<^verbatim>\<open>script_0.2.py\<close> reads spreadsheets into one pandas data frame, runs four
  validators over it and appends diagnostics to a log file. The data frame is a list of rows;
  the position of a row in the list is its index (the frame is built with
  \<^verbatim>\<open>ignore_index=True\<close>, so the index is 0, 1, 2, ...).

  Columns are typed by what the script can put into them. \<^verbatim>\<open>Barcode_ID\<close> and
  \<^verbatim>\<open>Patient_Study_ID\<close> are text or blank: \<open>None\<close> is the blank cell, which
  \<^verbatim>\<open>read_excel\<close> delivers as NaN. \<^verbatim>\<open>Date_Collected\<close> is blank, text, or a
  date and time (a spreadsheet date cell of any year, or the timestamp that
  \<^verbatim>\<open>to_datetime\<close> puts there).
  \<^verbatim>\<open>Available\<close> is blank, text, or a boolean (what the availability validator writes).
  Numeric cells are outside the model.
\<close>

text \<open>A timestamp is (year, month, day, second of the day), compared lexicographically.\<close>

type_synonym timestamp = "nat \<times> nat \<times> nat \<times> nat"

type_synonym date = "nat \<times> nat \<times> nat"

datatype date_cell = DateNull | DateStr string | DateStamp timestamp

datatype avail_cell = AvailNull | AvailStr string | AvailBool bool

record row =
  Barcode_ID :: "string option"
  Patient_Study_ID :: "string option"
  Date_Collected :: date_cell
  Available :: avail_cell
  SourceFile :: string
  OriginalRow :: nat

text \<open>One block of the log file: what one call of \<^verbatim>\<open>log_invalid_row\<close> appends.\<close>

record entry =
  file_name :: string
  master_index :: nat
  source_row_index :: nat
  issues :: "string list"

record state =
  df :: "row list"
  log_file :: "entry list"

datatype error = UnboundLocalError | ValueError

section \<open>Rendering values as text\<close>

abbreviation sq :: string where
  "sq \<equiv> [CHR 0x27]"

definition digit_char :: "nat \<Rightarrow> char" where
  "digit_char d = ''0123456789'' ! (d mod 10)"

text \<open>Python's \<^verbatim>\<open>str\<close> of a non-negative integer.\<close>

function str_nat :: "nat \<Rightarrow> string" where
  "str_nat n = (if n < 10 then [digit_char n] else str_nat (n div 10) @ [digit_char n])"
  by pat_completeness auto
termination
  by (relation "measure id") auto

declare str_nat.simps [simp del]

definition zfill :: "nat \<Rightarrow> string \<Rightarrow> string" where
  "zfill w s = replicate (w - length s) CHR ''0'' @ s"

fun join :: "string \<Rightarrow> string list \<Rightarrow> string" where
  "join sep [] = []"
| "join sep [x] = x"
| "join sep (x # y # ys) = x @ sep @ join sep (y # ys)"

text \<open>Python's \<^verbatim>\<open>str\<close> of a list of integers, as in \<^verbatim>\<open>[0, 2]\<close>.\<close>

definition str_list :: "nat list \<Rightarrow> string" where
  "str_list xs = ''['' @ join '', '' (map str_nat xs) @ '']''"

text \<open>\<^verbatim>\<open>str\<close> of a text-or-blank cell: the blank cell is NaN, which prints as \<^verbatim>\<open>nan\<close>.\<close>

definition str_cell :: "string option \<Rightarrow> string" where
  "str_cell v = (case v of None \<Rightarrow> ''nan'' | Some s \<Rightarrow> s)"

text \<open>\<^verbatim>\<open>str\<close> of a timestamp: \<^verbatim>\<open>YYYY-MM-DD HH:MM:SS\<close>.\<close>

definition str_timestamp :: "timestamp \<Rightarrow> string" where
  "str_timestamp t = (case t of (y, m, d, s) \<Rightarrow>
     zfill 4 (str_nat y) @ ''-'' @ zfill 2 (str_nat m) @ ''-'' @ zfill 2 (str_nat d) @ '' '' @
     zfill 2 (str_nat (s div 3600)) @ '':'' @ zfill 2 (str_nat (s div 60 mod 60)) @ '':'' @
     zfill 2 (str_nat (s mod 60)))"

section \<open>The diagnostics log\<close>

text \<open>
  \<^verbatim>\<open>log_invalid_row\<close> opens the log in append mode and writes one block. The log is kept
  as the list of blocks written so far; \<open>render_entry\<close> is the text of one block.
\<close>

definition log_invalid_row :: "string \<Rightarrow> nat \<Rightarrow> nat \<Rightarrow> string list \<Rightarrow> state \<Rightarrow> state" where
  "log_invalid_row fname midx sidx iss s =
     s\<lparr>log_file := log_file s @
        [\<lparr>file_name = fname, master_index = midx, source_row_index = sidx, issues = iss\<rparr>]\<rparr>"

definition render_entry :: "entry \<Rightarrow> string" where
  "render_entry e =
     ''File: '' @ sq @ file_name e @ sq @ '', MasterIndex: '' @ str_nat (master_index e) @
     '', SourceRowIndex: '' @ str_nat (source_row_index e) @ [CHR 0x0A] @
     concat (map (\<lambda>issue. '' - '' @ issue @ [CHR 0x0A]) (issues e)) @ [CHR 0x0A]"

text \<open>The block logged for the row at index \<open>idx\<close> of the frame, with the given issues.\<close>

definition log_row :: "nat \<Rightarrow> string list \<Rightarrow> state \<Rightarrow> state" where
  "log_row idx iss s =
     log_invalid_row (SourceFile (df s ! idx)) idx (OriginalRow (df s ! idx)) iss s"

section \<open>extract_data\<close>

text \<open>
  The archive and the file system are outside the model. \<open>extract_data\<close> starts from the
  spreadsheets found in the extracted folder: each is a file name and what
  \<^verbatim>\<open>read_excel\<close> gave, \<open>None\<close> when it raised (the file is then skipped with a console
  message). A frame that was read gets its \<^verbatim>\<open>SourceFile\<close> and \<^verbatim>\<open>OriginalRow\<close> columns
  assigned, whatever they held before.
\<close>

definition tag_frame :: "string \<Rightarrow> row list \<Rightarrow> row list" where
  "tag_frame fname rows =
     map (\<lambda>(i, r). r\<lparr>SourceFile := fname, OriginalRow := i + 2\<rparr>) (enumerate 0 rows)"

fun read_all :: "(string \<times> row list option) list \<Rightarrow> row list list \<Rightarrow> row list list" where
  "read_all [] master_raw_df = master_raw_df"
| "read_all ((fname, None) # files) master_raw_df = read_all files master_raw_df"
| "read_all ((fname, Some rows) # files) master_raw_df =
     read_all files (master_raw_df @ [tag_frame fname rows])"

text \<open>\<^verbatim>\<open>pd.concat\<close> raises \<^verbatim>\<open>ValueError: No objects to concatenate\<close> on an empty list.\<close>

definition pd_concat :: "row list list \<Rightarrow> error + row list" where
  "pd_concat frames = (if frames = [] then Inl ValueError else Inr (concat frames))"

definition extract_data :: "(string \<times> row list option) list \<Rightarrow> error + row list" where
  "extract_data files = pd_concat (read_all files [])"

section \<open>validate_barcodeid\<close>

definition barcode_issues :: "string option \<Rightarrow> string list" where
  "barcode_issues row =
     (if length (str_cell row) \<noteq> 8
      then [''Barcode_ID '' @ sq @ str_cell row @ sq @ '' length is not equal to 8'']
      else if row = None then [''Barcode_ID is NA'']
      else [])"

text \<open>
  The per-row loop only computes \<^verbatim>\<open>issues\<close>; the \<^verbatim>\<open>if issues:\<close> that logs them stands
  after the loop (at the indentation of the \<^verbatim>\<open>for\<close>). What the loop leaves behind is the
  last \<^verbatim>\<open>idx\<close> and the last \<^verbatim>\<open>issues\<close>, or nothing when the frame has no rows.
\<close>

definition barcode_loop :: "row list \<Rightarrow> (nat \<times> string list) option" where
  "barcode_loop rows =
     fold (\<lambda>(idx, r) _. Some (idx, barcode_issues (Barcode_ID r))) (enumerate 0 rows) None"

text \<open>
  \<^verbatim>\<open>df.duplicated("Barcode_ID", keep=False)\<close> marks every row whose value occurs more than
  once; blank cells count as equal to each other, as they do for \<^verbatim>\<open>is_unique\<close>.
\<close>

definition duplicates :: "row list \<Rightarrow> (nat \<times> row) list" where
  "duplicates rows =
     filter (\<lambda>(i, r). 1 < count_list (map Barcode_ID rows) (Barcode_ID r)) (enumerate 0 rows)"

text \<open>
  \<^verbatim>\<open>groupby("Barcode_ID").groups\<close>: the keys in sorted order, each with the index labels
  of its rows in frame order. \<^verbatim>\<open>groupby\<close> drops blank keys (its default \<^verbatim>\<open>dropna=True\<close>).
\<close>

definition groups :: "(nat \<times> row) list \<Rightarrow> (string \<times> nat list) list" where
  "groups dups =
     map (\<lambda>k. (k, map fst (filter (\<lambda>(i, r). Barcode_ID r = Some k) dups)))
         (sort (remdups (concat (map (\<lambda>(i, r). case Barcode_ID r of None \<Rightarrow> [] | Some k \<Rightarrow> [k]) dups))))"

definition duplicate_issue :: "string \<Rightarrow> nat list \<Rightarrow> string" where
  "duplicate_issue barcode_value indicies =
     ''Duplicate Barcode_ID: '' @ sq @ barcode_value @ sq @ '' found in rows: '' @ str_list indicies"

definition log_group :: "string \<times> nat list \<Rightarrow> state \<Rightarrow> state" where
  "log_group g s = (case g of (barcode_value, indicies) \<Rightarrow>
     fold (\<lambda>idx. log_row idx [duplicate_issue barcode_value indicies]) indicies s)"

text \<open>
  \<^verbatim>\<open>grouped\<close> is assigned only when the column is not unique; reading it (or
  \<^verbatim>\<open>issues\<close>) unassigned raises \<^verbatim>\<open>UnboundLocalError\<close>. A validator returns the exception
  it raised, if any, and the state as it was then.
\<close>

definition validate_barcodeid :: "state \<Rightarrow> error option \<times> state" where
  "validate_barcodeid s =
     (case barcode_loop (df s) of
        None \<Rightarrow> (Some UnboundLocalError, s)
      | Some (idx, iss) \<Rightarrow>
          let s1 = (if iss \<noteq> [] then log_row idx iss s else s);
              grouped = (if \<not> distinct (map Barcode_ID (df s))
                         then Some (groups (duplicates (df s))) else None)
          in (case grouped of
                None \<Rightarrow> (Some UnboundLocalError, s1)
              | Some g \<Rightarrow> (None, fold log_group g s1)))"

section \<open>validate_ptid\<close>

text \<open>Python's \<^verbatim>\<open>p in s\<close> on strings: \<open>p\<close> occurs in \<open>s\<close> as a contiguous piece.\<close>

fun starts_with :: "string \<Rightarrow> string \<Rightarrow> bool" where
  "starts_with s [] = True"
| "starts_with [] (p # ps) = False"
| "starts_with (c # cs) (p # ps) = (c = p \<and> starts_with cs ps)"

fun contains :: "string \<Rightarrow> string \<Rightarrow> bool" where
  "contains [] p = (p = [])"
| "contains (c # cs) p = (starts_with (c # cs) p \<or> contains cs p)"

definition identifiers :: "string list" where
  "identifiers = [''C'', ''H'', ''IN'']"

definition ptid_issues :: "string option \<Rightarrow> string list" where
  "ptid_issues row =
     (if row = None then [''PTID is NA'']
      else if \<not> list_ex (\<lambda>identifier. contains (str_cell row) identifier) identifiers
      then [''PTID '' @ sq @ str_cell row @ sq @ '' is not correctly formatted'']
      else [])"

definition ptid_step :: "nat \<times> row \<Rightarrow> state \<Rightarrow> state" where
  "ptid_step ir s = (case ir of (idx, r) \<Rightarrow>
     let iss = ptid_issues (Patient_Study_ID r)
     in if iss \<noteq> [] then log_row idx iss s else s)"

definition validate_ptid :: "state \<Rightarrow> error option \<times> state" where
  "validate_ptid s = (None, fold ptid_step (enumerate 0 (df s)) s)"

section \<open>validate_collection_date\<close>

text \<open>
  \<^verbatim>\<open>pd.to_datetime(..., errors='coerce', format="%m/%d/%Y")\<close>. A text cell must match the
  format as a whole: the month is \<^verbatim>\<open>1[0-2]|0[1-9]|[1-9]\<close>, the day
  \<^verbatim>\<open>3[0-1]|[1-2]\d|0[1-9]|[1-9]| [1-9]\<close>, the year four digits, with \<^verbatim>\<open>/\<close> between
  them. The date must exist in the calendar and lie in the range of a nanosecond timestamp.
  Everything else is coerced to the null date. A blank cell stays null. A cell that already
  is a date and time (a spreadsheet date cell) is kept when it lies in the range of a
  nanosecond timestamp and is coerced to the null date when it does not.
\<close>

text \<open>
  The range of a nanosecond timestamp is 1677-09-21 00:12:43.145224193 to
  2262-04-11 23:47:16.854775807; in whole seconds, 00:12:44 on the first day to 23:47:16 on
  the last.
\<close>

definition in_ns_range :: "timestamp \<Rightarrow> bool" where
  "in_ns_range t = ((1677, 9, 21, 764) \<le> t \<and> t \<le> (2262, 4, 11, 85636))"

definition is_digit :: "char \<Rightarrow> bool" where
  "is_digit c = (c \<in> set ''0123456789'')"

definition is_digit19 :: "char \<Rightarrow> bool" where
  "is_digit19 c = (c \<in> set ''123456789'')"

definition digit_val :: "char \<Rightarrow> nat" where
  "digit_val c = of_char c - 48"

fun month_tok :: "string \<Rightarrow> nat option" where
  "month_tok [a, b] =
     (if a = CHR ''1'' \<and> b \<in> set ''012'' then Some (10 + digit_val b)
      else if a = CHR ''0'' \<and> is_digit19 b then Some (digit_val b)
      else None)"
| "month_tok [a] = (if is_digit19 a then Some (digit_val a) else None)"
| "month_tok _ = None"

fun day_tok :: "string \<Rightarrow> nat option" where
  "day_tok [a, b] =
     (if a = CHR ''3'' \<and> b \<in> set ''01'' then Some (30 + digit_val b)
      else if a \<in> set ''12'' \<and> is_digit b then Some (10 * digit_val a + digit_val b)
      else if a = CHR ''0'' \<and> is_digit19 b then Some (digit_val b)
      else if a = CHR '' '' \<and> is_digit19 b then Some (digit_val b)
      else None)"
| "day_tok [a] = (if is_digit19 a then Some (digit_val a) else None)"
| "day_tok _ = None"

fun year_tok :: "string \<Rightarrow> nat option" where
  "year_tok [a, b, c, d] =
     (if is_digit a \<and> is_digit b \<and> is_digit c \<and> is_digit d
      then Some (1000 * digit_val a + 100 * digit_val b + 10 * digit_val c + digit_val d)
      else None)"
| "year_tok _ = None"

text \<open>The text before the first \<^verbatim>\<open>/\<close> and the text after it, if there is a \<^verbatim>\<open>/\<close>.\<close>

definition split_slash :: "string \<Rightarrow> (string \<times> string) option" where
  "split_slash s =
     (case dropWhile (\<lambda>c. c \<noteq> CHR ''/'') s of
        [] \<Rightarrow> None
      | _ # rest \<Rightarrow> Some (takeWhile (\<lambda>c. c \<noteq> CHR ''/'') s, rest))"

definition is_leap :: "nat \<Rightarrow> bool" where
  "is_leap y = (y mod 4 = 0 \<and> (y mod 100 \<noteq> 0 \<or> y mod 400 = 0))"

definition days_in_month :: "nat \<Rightarrow> nat \<Rightarrow> nat" where
  "days_in_month y m =
     (if m = 2 then (if is_leap y then 29 else 28)
      else if m \<in> {4, 6, 9, 11} then 30 else 31)"

definition parse_mdy :: "string \<Rightarrow> timestamp option" where
  "parse_mdy s =
     (case split_slash s of
        None \<Rightarrow> None
      | Some (mt, rest) \<Rightarrow>
          (case split_slash rest of
             None \<Rightarrow> None
           | Some (dt, yt) \<Rightarrow>
               (case (month_tok mt, day_tok dt, year_tok yt) of
                  (Some m, Some d, Some y) \<Rightarrow>
                    if d \<le> days_in_month y m \<and> in_ns_range (y, m, d, 0)
                    then Some (y, m, d, 0) else None
                | _ \<Rightarrow> None)))"

definition to_datetime :: "date_cell \<Rightarrow> date_cell" where
  "to_datetime v =
     (case v of
        DateNull \<Rightarrow> DateNull
      | DateStamp t \<Rightarrow> if in_ns_range t then DateStamp t else DateNull
      | DateStr s \<Rightarrow> (case parse_mdy s of None \<Rightarrow> DateNull | Some t \<Rightarrow> DateStamp t))"

text \<open>\<^verbatim>\<open>pd.Timestamp\<close> of a calendar date is that day at midnight.\<close>

definition Timestamp :: "date \<Rightarrow> timestamp" where
  "Timestamp d = (case d of (y, m, dd) \<Rightarrow> (y, m, dd, 0))"

definition start_date :: date where
  "start_date = (2020, 2, 14)"

text \<open>
  The body of the per-row check; \<open>today\<close> is \<^verbatim>\<open>date.today()\<close>. After the normalization
  the column holds timestamps and null dates only. On a text cell the comparison with a
  timestamp raises, which the \<^verbatim>\<open>except\<close> turns into a console message: no issue.
\<close>

definition date_issues :: "date \<Rightarrow> date_cell \<Rightarrow> string list" where
  "date_issues today row =
     (case row of
        DateNull \<Rightarrow> [''Date_Collected is NA'']
      | DateStamp t \<Rightarrow>
          if t < Timestamp start_date \<or> t > Timestamp today
          then [''Date_Collected is outside of range, date: '' @ str_timestamp t]
          else []
      | DateStr s \<Rightarrow> [])"

definition date_step :: "date \<Rightarrow> nat \<times> row \<Rightarrow> state \<Rightarrow> state" where
  "date_step today ir s = (case ir of (idx, r) \<Rightarrow>
     let iss = date_issues today (Date_Collected r)
     in if iss \<noteq> [] then log_row idx iss s else s)"

definition normalize_dates :: "state \<Rightarrow> state" where
  "normalize_dates s =
     s\<lparr>df := map (\<lambda>r. r\<lparr>Date_Collected := to_datetime (Date_Collected r)\<rparr>) (df s)\<rparr>"

definition validate_collection_date :: "date \<Rightarrow> state \<Rightarrow> error option \<times> state" where
  "validate_collection_date today s =
     (let s0 = normalize_dates s
      in (None, fold (date_step today) (enumerate 0 (df s0)) s0))"

section \<open>validate_available\<close>

definition set_available :: "nat \<Rightarrow> bool \<Rightarrow> state \<Rightarrow> state" where
  "set_available idx b s = s\<lparr>df := (df s)[idx := (df s ! idx)\<lparr>Available := AvailBool b\<rparr>]\<rparr>"

definition unknown_issue :: "nat \<Rightarrow> string" where
  "unknown_issue idx =
     ''Availability is unknown at index: '' @ str_nat idx @ '', check to confirm availability''"

text \<open>
  One iteration: the cell is rewritten and \<^verbatim>\<open>issues\<close> is computed. As in
  \<open>validate_barcodeid\<close>, the \<^verbatim>\<open>if issues:\<close> stands after the loop, so the loop carries
  the last \<^verbatim>\<open>idx\<close> and \<^verbatim>\<open>issues\<close> along with the frame. A boolean cell is neither null
  nor equal to \<^verbatim>\<open>"N"\<close> or \<^verbatim>\<open>"Y"\<close>.
\<close>

definition available_step ::
  "nat \<times> row \<Rightarrow> state \<times> (nat \<times> string list) option \<Rightarrow> state \<times> (nat \<times> string list) option" where
  "available_step ir acc = (case ir of (idx, r) \<Rightarrow>
     let row = Available r; s = fst acc
     in if row = AvailNull then (set_available idx True s, Some (idx, []))
        else if row = AvailStr ''N'' then (set_available idx False s, Some (idx, []))
        else if row = AvailStr ''Y'' then (set_available idx True s, Some (idx, []))
        else (set_available idx True s, Some (idx, [unknown_issue idx])))"

definition validate_available :: "state \<Rightarrow> error option \<times> state" where
  "validate_available s =
     (case fold available_step (enumerate 0 (df s)) (s, None) of
        (s1, None) \<Rightarrow> (Some UnboundLocalError, s1)
      | (s1, Some (idx, iss)) \<Rightarrow> (None, if iss \<noteq> [] then log_row idx iss s1 else s1))"

section \<open>Processing\<close>

text \<open>
  The script runs the four validators in a fixed order; an exception that leaves a validator
  ends the run there.
\<close>

definition and_then ::
  "error option \<times> state \<Rightarrow> (state \<Rightarrow> error option \<times> state) \<Rightarrow> error option \<times> state" where
  "and_then r f = (case r of (None, s) \<Rightarrow> f s | (Some e, s) \<Rightarrow> (Some e, s))"

definition validators :: "date \<Rightarrow> state \<Rightarrow> error option \<times> state" where
  "validators today s =
     and_then (and_then (and_then (validate_barcodeid s) validate_ptid)
                        (validate_collection_date today)) validate_available"

definition processing ::
  "date \<Rightarrow> (string \<times> row list option) list \<Rightarrow> entry list \<Rightarrow> error option \<times> state" where
  "processing today files old_log =
     (case extract_data files of
        Inl e \<Rightarrow> (Some e, \<lparr>df = [], log_file = old_log\<rparr>)
      | Inr master_raw_df \<Rightarrow> validators today \<lparr>df = master_raw_df, log_file = old_log\<rparr>)"

section \<open>Vocabulary of the statements\<close>

text \<open>The block that \<open>log_row\<close> writes for the row at index \<open>idx\<close> of a frame.\<close>

definition entry_of :: "row list \<Rightarrow> nat \<Rightarrow> string list \<Rightarrow> entry" where
  "entry_of rows idx iss =
     \<lparr>file_name = SourceFile (rows ! idx), master_index = idx,
      source_row_index = OriginalRow (rows ! idx), issues = iss\<rparr>"

text \<open>
  One block for each row that has an issue, in the order of the rows: \<open>chk i\<close> is the list
  of issues of the row at index \<open>i\<close>.
\<close>

definition row_entries :: "row list \<Rightarrow> (nat \<Rightarrow> string list) \<Rightarrow> entry list" where
  "row_entries rows chk =
     map (\<lambda>i. entry_of rows i (chk i)) (filter (\<lambda>i. chk i \<noteq> []) [0..<length rows])"

text \<open>
  What the availability loop writes into a cell and the issues it computes for it: false for
  \<^verbatim>\<open>"N"\<close> and true for everything else; an issue for everything but a blank,
  \<^verbatim>\<open>"N"\<close> and \<^verbatim>\<open>"Y"\<close>.
\<close>

definition available_value :: "avail_cell \<Rightarrow> bool" where
  "available_value v = (v \<noteq> AvailStr ''N'')"

definition available_issues :: "nat \<Rightarrow> avail_cell \<Rightarrow> string list" where
  "available_issues idx v =
     (if v = AvailNull \<or> v = AvailStr ''N'' \<or> v = AvailStr ''Y'' then [] else [unknown_issue idx])"

definition normalize_available :: "row \<Rightarrow> row" where
  "normalize_available r = r\<lparr>Available := AvailBool (available_value (Available r))\<rparr>"

text \<open>The block written after a loop whose \<^verbatim>\<open>if issues:\<close> stands behind it: the last row's, if any.\<close>

definition last_row_entry :: "row list \<Rightarrow> (nat \<Rightarrow> row \<Rightarrow> string list) \<Rightarrow> entry list" where
  "last_row_entry rows chk =
     (if chk (length rows - 1) (last rows) \<noteq> []
      then [entry_of rows (length rows - 1) (chk (length rows - 1) (last rows))] else [])"

text \<open>
  The duplicate pass in the statements' terms: the text values that occur in more than one
  row, in sorted order; the indices of the rows that hold a value; and the blocks of the pass,
  one for each member of each group.
\<close>

definition duplicated_keys :: "row list \<Rightarrow> string list" where
  "duplicated_keys rows =
     sort (remdups (concat (map (\<lambda>r. case Barcode_ID r of None \<Rightarrow> [] | Some k \<Rightarrow> [k])
       (filter (\<lambda>r. 1 < count_list (map Barcode_ID rows) (Barcode_ID r)) rows))))"

definition members :: "row list \<Rightarrow> string \<Rightarrow> nat list" where
  "members rows k = filter (\<lambda>i. Barcode_ID (rows ! i) = Some k) [0..<length rows]"

definition duplicate_entry :: "row list \<Rightarrow> string \<Rightarrow> nat \<Rightarrow> entry" where
  "duplicate_entry rows k i = entry_of rows i [duplicate_issue k (members rows k)]"

definition duplicate_entries :: "row list \<Rightarrow> entry list" where
  "duplicate_entries rows =
     concat (map (\<lambda>k. map (duplicate_entry rows k) (members rows k)) (duplicated_keys rows))"

text \<open>The frames that \<open>extract_data\<close> concatenates: one for each spreadsheet that was read.\<close>

definition frames_read :: "(string \<times> row list option) list \<Rightarrow> row list list" where
  "frames_read files =
     concat (map (\<lambda>(fname, r). case r of None \<Rightarrow> [] | Some rows \<Rightarrow> [tag_frame fname rows]) files)"

text \<open>The fields of a row that no validator assigns.\<close>

definition kept :: "row \<Rightarrow> string option \<times> string option \<times> string \<times> nat" where
  "kept r = (Barcode_ID r, Patient_Study_ID r, SourceFile r, OriginalRow r)"

text \<open>The two validators that rewrite the table, in the order in which the script runs them.\<close>

definition date_then_available :: "date \<Rightarrow> state \<Rightarrow> error option \<times> state" where
  "date_then_available today s = and_then (validate_collection_date today s) validate_available"

text \<open>The table and the log after one run of the two of them.\<close>

definition normalized :: "date \<Rightarrow> state \<Rightarrow> state" where
  "normalized today s = snd (date_then_available today s)"

section \<open>Example tables\<close>

text \<open>
  Three rows from two files: a seven-character identifier, and an eight-character one that
  two rows share (the spec's end-to-end example).
\<close>

definition ex_rows :: "row list" where
  "ex_rows =
     [\<lparr>Barcode_ID = Some ''AB12345'', Patient_Study_ID = Some ''C001'',
       Date_Collected = DateStr ''02/13/2020'', Available = AvailStr ''X'',
       SourceFile = ''a.xlsx'', OriginalRow = 2\<rparr>,
      \<lparr>Barcode_ID = Some ''AB123456'', Patient_Study_ID = None,
       Date_Collected = DateStr ''02/14/2020'', Available = AvailStr ''N'',
       SourceFile = ''a.xlsx'', OriginalRow = 3\<rparr>,
      \<lparr>Barcode_ID = Some ''AB123456'', Patient_Study_ID = Some ''xx1'',
       Date_Collected = DateStr ''soon'', Available = AvailStr ''Y'',
       SourceFile = ''b.xlsx'', OriginalRow = 2\<rparr>]"

definition ex_state :: state where
  "ex_state = \<lparr>df = ex_rows, log_file = []\<rparr>"

text \<open>The first two rows only: every identifier occurs once.\<close>

definition ex_unique :: state where
  "ex_unique = \<lparr>df = take 2 ex_rows, log_file = []\<rparr>"

text \<open>Two rows whose identifier cell is blank.\<close>

definition ex_blank :: state where
  "ex_blank =
     \<lparr>df = [\<lparr>Barcode_ID = None, Patient_Study_ID = Some ''C001'',
              Date_Collected = DateNull, Available = AvailNull,
              SourceFile = ''a.xlsx'', OriginalRow = 2\<rparr>,
             \<lparr>Barcode_ID = None, Patient_Study_ID = Some ''H002'',
              Date_Collected = DateNull, Available = AvailNull,
              SourceFile = ''a.xlsx'', OriginalRow = 3\<rparr>],
      log_file = []\<rparr>"

definition ex_today :: date where
  "ex_today = (2024, 6, 30)"

text \<open>The example rows as two spreadsheets, with one file between them that cannot be read.\<close>

definition ex_files :: "(string \<times> row list option) list" where
  "ex_files =
     [(''a.xlsx'', Some (take 2 ex_rows)), (''broken.xlsx'', None), (''b.xlsx'', Some (drop 2 ex_rows))]"

text \<open>One row whose date cell lies beyond the range of a nanosecond timestamp.\<close>

definition ex_far :: state where
  "ex_far =
     \<lparr>df = [\<lparr>Barcode_ID = Some ''AB123456'', Patient_Study_ID = Some ''C001'',
              Date_Collected = DateStamp (2300, 6, 15, 0), Available = AvailStr ''Y'',
              SourceFile = ''a.xlsx'', OriginalRow = 2\<rparr>],
      log_file = []\<rparr>"

section \<open>Logging loops\<close>

lemma log_row_eq:
  "log_row idx iss s = s\<lparr>log_file := log_file s @ [entry_of (df s) idx iss]\<rparr>"
  by (simp add: log_row_def log_invalid_row_def entry_of_def)

lemma enumerate_map_nth: "enumerate 0 xs = map (\<lambda>i. (i, xs ! i)) [0..<length xs]"
  by (rule nth_equalityI) (simp_all add: nth_enumerate_eq)

lemma fold_log_rows:
  "fold (\<lambda>i s. if chk i \<noteq> [] then log_row i (chk i) s else s) is s =
     s\<lparr>log_file := log_file s @ map (\<lambda>i. entry_of (df s) i (chk i)) (filter (\<lambda>i. chk i \<noteq> []) is)\<rparr>"
  by (induction "is" arbitrary: s) (simp_all add: log_row_eq)

lemma fold_enumerate:
  "fold f (enumerate 0 xs) s = fold (\<lambda>i. f (i, xs ! i)) [0..<length xs] s"
  by (subst enumerate_map_nth) (simp add: fold_map comp_def)

lemma validate_ptid_eq:
  "validate_ptid s =
     (None, s\<lparr>log_file := log_file s @
        row_entries (df s) (\<lambda>i. ptid_issues (Patient_Study_ID (df s ! i)))\<rparr>)"
proof -
  have "(\<lambda>i. ptid_step (i, df s ! i)) =
        (\<lambda>i st. if ptid_issues (Patient_Study_ID (df s ! i)) \<noteq> []
                 then log_row i (ptid_issues (Patient_Study_ID (df s ! i))) st else st)"
    by (simp add: fun_eq_iff ptid_step_def Let_def)
  then show ?thesis
    by (simp add: validate_ptid_def fold_enumerate fold_log_rows row_entries_def)
qed

lemma row_entries_count:
  "filter (\<lambda>e. master_index e = i) (row_entries rows chk) =
     (if i < length rows \<and> chk i \<noteq> [] then [entry_of rows i (chk i)] else [])"
proof -
  have "filter (\<lambda>e. master_index e = i) (row_entries rows chk) =
        map (\<lambda>j. entry_of rows j (chk j)) (filter (\<lambda>j. j = i) (filter (\<lambda>j. chk j \<noteq> []) [0..<length rows]))"
    by (simp add: row_entries_def filter_map comp_def entry_of_def)
  also have "filter (\<lambda>j. j = i) (filter (\<lambda>j. chk j \<noteq> []) [0..<length rows]) =
             filter (\<lambda>j. chk j \<noteq> []) (filter (\<lambda>j. j = i) [0..<length rows])"
    by (simp add: conj_commute)
  also have "filter (\<lambda>j. j = i) [0..<length rows] = (if i < length rows then [i] else [])"
    by (induction rows rule: rev_induct) auto
  finally show ?thesis by auto
qed


lemma starts_with_iff: "starts_with s p \<longleftrightarrow> (\<exists>b. s = p @ b)"
  by (induction s p rule: starts_with.induct) auto

lemma contains_iff: "contains s p \<longleftrightarrow> (\<exists>a b. s = a @ p @ b)"
proof (induction s)
  case Nil
  then show ?case by simp
next
  case (Cons c cs)
  show ?case
  proof
    assume "contains (c # cs) p"
    then consider "starts_with (c # cs) p" | "contains cs p" by auto
    then show "\<exists>a b. c # cs = a @ p @ b"
    proof cases
      case 1
      then obtain b where "c # cs = p @ b" by (auto simp: starts_with_iff)
      then have "c # cs = [] @ p @ b" by simp
      then show ?thesis by blast
    next
      case 2
      with Cons obtain a b where "cs = a @ p @ b" by auto
      then have "c # cs = (c # a) @ p @ b" by simp
      then show ?thesis by blast
    qed
  next
    assume "\<exists>a b. c # cs = a @ p @ b"
    then obtain a b where ab: "c # cs = a @ p @ b" by auto
    show "contains (c # cs) p"
    proof (cases a)
      case Nil
      with ab have "starts_with (c # cs) p" by (auto simp: starts_with_iff)
      then show ?thesis by simp
    next
      case (Cons x a')
      with ab have "cs = a' @ p @ b" by simp
      with Cons.IH have "contains cs p" by blast
      then show ?thesis by simp
    qed
  qed
qed

lemma ptid_issues_Some:
  "ptid_issues (Some v) =
     (if (\<exists>a b. v = a @ ''C'' @ b) \<or> (\<exists>a b. v = a @ ''H'' @ b) \<or> (\<exists>a b. v = a @ ''IN'' @ b)
      then [] else [''PTID '' @ sq @ v @ sq @ '' is not correctly formatted''])"
  by (simp add: ptid_issues_def identifiers_def str_cell_def contains_iff)

section \<open>The patient-ID validator\<close>

text \<open>
  C7. \<open>validate_ptid\<close> raises nothing and leaves the frame as it was. It appends to the log
  one block for each row that has an issue, in row order, and nothing else: the blocks with a
  given index are one block when that row has an issue and none otherwise. A blank cell has
  the issue \<^verbatim>\<open>PTID is NA\<close>; a text cell has no issue when \<^verbatim>\<open>C\<close>, \<^verbatim>\<open>H\<close> or
  \<^verbatim>\<open>IN\<close> occurs in it, and the not-correctly-formatted issue otherwise.
\<close>

theorem validate_ptid_entries:
  "fst (validate_ptid s) = None \<and>
   df (snd (validate_ptid s)) = df s \<and>
   log_file (snd (validate_ptid s)) =
     log_file s @ row_entries (df s) (\<lambda>i. ptid_issues (Patient_Study_ID (df s ! i))) \<and>
   filter (\<lambda>e. master_index e = i)
       (row_entries (df s) (\<lambda>i. ptid_issues (Patient_Study_ID (df s ! i)))) =
     (if i < length (df s) \<and> ptid_issues (Patient_Study_ID (df s ! i)) \<noteq> []
      then [entry_of (df s) i (ptid_issues (Patient_Study_ID (df s ! i)))] else []) \<and>
   ptid_issues None = [''PTID is NA''] \<and>
   ptid_issues (Some v) =
     (if (\<exists>a b. v = a @ ''C'' @ b) \<or> (\<exists>a b. v = a @ ''H'' @ b) \<or> (\<exists>a b. v = a @ ''IN'' @ b)
      then [] else [''PTID '' @ sq @ v @ sq @ '' is not correctly formatted''])"
proof -
  have "ptid_issues None = [''PTID is NA'']" by (simp add: ptid_issues_def)
  then show ?thesis
    using ptid_issues_Some [of v]
    by (simp add: validate_ptid_eq row_entries_count)
qed

theorem validate_ptid_entries_witness:
  "fst (validate_ptid ex_state) = None \<and>
   df (snd (validate_ptid ex_state)) = ex_rows \<and>
   log_file (snd (validate_ptid ex_state)) =
     [\<lparr>file_name = ''a.xlsx'', master_index = 1, source_row_index = 3, issues = [''PTID is NA'']\<rparr>,
      \<lparr>file_name = ''b.xlsx'', master_index = 2, source_row_index = 2,
       issues = [''PTID '' @ sq @ ''xx1'' @ sq @ '' is not correctly formatted'']\<rparr>]"
proof -
  note t = validate_ptid_entries [of ex_state 0 "''xx1''"]
  have h: "log_file ex_state @
      row_entries (df ex_state) (\<lambda>i. ptid_issues (Patient_Study_ID (df ex_state ! i))) =
     [\<lparr>file_name = ''a.xlsx'', master_index = 1, source_row_index = 3, issues = [''PTID is NA'']\<rparr>,
      \<lparr>file_name = ''b.xlsx'', master_index = 2, source_row_index = 2,
       issues = [''PTID '' @ sq @ ''xx1'' @ sq @ '' is not correctly formatted'']\<rparr>]"
    by code_simp
  have d: "df ex_state = ex_rows" by (simp add: ex_state_def)
  show ?thesis
    using t [THEN conjunct1] t [THEN conjunct2, THEN conjunct1]
      t [THEN conjunct2, THEN conjunct2, THEN conjunct1] h d
    by simp
qed

section \<open>What each validator computes\<close>

lemma validate_collection_date_eq:
  "validate_collection_date today s =
     (None, (normalize_dates s)\<lparr>log_file := log_file s @
        row_entries (df (normalize_dates s))
          (\<lambda>i. date_issues today (Date_Collected (df (normalize_dates s) ! i)))\<rparr>)"
proof -
  define s0 where "s0 = normalize_dates s"
  have "(\<lambda>i. date_step today (i, df s0 ! i)) =
        (\<lambda>i st. if date_issues today (Date_Collected (df s0 ! i)) \<noteq> []
                 then log_row i (date_issues today (Date_Collected (df s0 ! i))) st else st)"
    by (simp add: fun_eq_iff date_step_def Let_def)
  moreover have "log_file s0 = log_file s"
    by (simp add: s0_def normalize_dates_def)
  ultimately show ?thesis
    unfolding validate_collection_date_def Let_def s0_def [symmetric]
    by (simp add: fold_enumerate fold_log_rows row_entries_def)
qed

lemma parse_mdy_in_range: "parse_mdy str = Some t \<Longrightarrow> in_ns_range t"
  by (auto simp: parse_mdy_def split: option.splits if_splits prod.splits)

lemma to_datetime_idem: "to_datetime (to_datetime v) = to_datetime v"
  by (cases v) (auto simp: to_datetime_def parse_mdy_in_range split: option.splits)

lemma parse_mdy_midnight: "parse_mdy str = Some t \<Longrightarrow> snd (snd (snd t)) = 0"
  by (auto simp: parse_mdy_def split: option.splits if_splits prod.splits)

lemma last_loop:
  "fold (\<lambda>(idx, r) _. Some (g idx r)) (enumerate n rows) acc =
     (if rows = [] then acc else Some (g (n + length rows - 1) (last rows)))"
  by (induction rows arbitrary: n acc) auto

lemma barcode_loop_eq:
  "barcode_loop rows =
     (if rows = [] then None
      else Some (length rows - 1, barcode_issues (Barcode_ID (last rows))))"
  using last_loop [of "\<lambda>idx r. (idx, barcode_issues (Barcode_ID r))" 0 rows None]
  by (simp add: barcode_loop_def)

lemma available_step_eq:
  "available_step (idx, r) (s, acc) =
     (set_available idx (available_value (Available r)) s,
      Some (idx, available_issues idx (Available r)))"
  by (auto simp: available_step_def Let_def available_value_def available_issues_def)

lemma available_loop:
  "df s = pre @ rows \<Longrightarrow>
   fold available_step (enumerate (length pre) rows) (s, acc) =
     (s\<lparr>df := pre @ map normalize_available rows\<rparr>,
      if rows = [] then acc
      else Some (length pre + length rows - 1,
                 available_issues (length pre + length rows - 1) (Available (last rows))))"
proof (induction rows arbitrary: pre s acc)
  case Nil
  then show ?case by simp
next
  case (Cons r rs)
  let ?s' = "set_available (length pre) (available_value (Available r)) s"
  have d: "df ?s' = (pre @ [normalize_available r]) @ rs"
    using Cons.prems by (simp add: set_available_def normalize_available_def)
  show ?case
    using Cons.IH [OF d, of "Some (length pre, available_issues (length pre) (Available r))"]
    by (auto simp: available_step_eq set_available_def)
qed

lemma validate_available_eq:
  "validate_available s =
     (if df s = [] then (Some UnboundLocalError, s)
      else (None, s\<lparr>df := map normalize_available (df s),
                     log_file := log_file s @
                       last_row_entry (map normalize_available (df s))
                         (\<lambda>idx r. available_issues idx (Available (df s ! idx)))\<rparr>))"
proof (cases "df s = []")
  case True
  then show ?thesis by (simp add: validate_available_def)
next
  case False
  have n: "length (df s) - 1 < length (df s)" using False by (cases "df s") auto
  have l: "last (df s) = df s ! (length (df s) - 1)"
    using False by (simp add: last_conv_nth)
  show ?thesis
    using False available_loop [of s "[]" "df s" None] l
    by (simp add: validate_available_def last_row_entry_def log_row_eq)
qed

section \<open>The duplicate pass\<close>

lemma snd_filter_enumerate:
  "map snd (filter (\<lambda>(i, r). P r) (enumerate n rows)) = filter P rows"
  by (induction rows arbitrary: n) auto

lemma concat_map_snd:
  "concat (map (\<lambda>(i, r). f r) xs) = concat (map f (map snd xs))"
  by (induction xs) auto

lemma duplicates_keys:
  "sort (remdups (concat (map (\<lambda>(i, r). case Barcode_ID r of None \<Rightarrow> [] | Some k \<Rightarrow> [k])
      (duplicates rows)))) = duplicated_keys rows"
  unfolding duplicates_def duplicated_keys_def
  by (simp only: concat_map_snd snd_filter_enumerate)

lemma duplicated_keys_iff:
  "k \<in> set (duplicated_keys rows) \<longleftrightarrow> 1 < count_list (map Barcode_ID rows) (Some k)"
proof
  assume "k \<in> set (duplicated_keys rows)"
  then show "1 < count_list (map Barcode_ID rows) (Some k)"
    by (auto simp: duplicated_keys_def split: option.splits)
next
  assume c: "1 < count_list (map Barcode_ID rows) (Some k)"
  then have "Some k \<in> set (map Barcode_ID rows)"
    by (metis count_list_0_iff not_less_zero)
  then obtain r where "r \<in> set rows" "Barcode_ID r = Some k" by auto
  with c show "k \<in> set (duplicated_keys rows)"
    by (auto simp: duplicated_keys_def split: option.splits intro!: bexI [of _ r])
qed

lemma fst_filter_enumerate:
  "map fst (filter (\<lambda>(i, r). P r) (enumerate 0 rows)) = filter (\<lambda>i. P (rows ! i)) [0..<length rows]"
  by (simp add: enumerate_map_nth filter_map comp_def)

lemma duplicates_members:
  assumes "k \<in> set (duplicated_keys rows)"
  shows "map fst (filter (\<lambda>(i, r). Barcode_ID r = Some k) (duplicates rows)) = members rows k"
proof -
  have c: "1 < count_list (map Barcode_ID rows) (Some k)"
    using assms by (simp add: duplicated_keys_iff)
  have "filter (\<lambda>(i, r). Barcode_ID r = Some k) (duplicates rows) =
        filter (\<lambda>(i, r). Barcode_ID r = Some k) (enumerate 0 rows)"
    unfolding duplicates_def filter_filter
    by (rule filter_cong) (use c in auto)
  then show ?thesis
    by (simp add: fst_filter_enumerate members_def)
qed

lemma groups_duplicates:
  "groups (duplicates rows) = map (\<lambda>k. (k, members rows k)) (duplicated_keys rows)"
  unfolding groups_def duplicates_keys
  by (rule map_cong) (simp_all add: duplicates_members)

lemma fold_log_const:
  "fold (\<lambda>idx. log_row idx iss) idxs s =
     s\<lparr>log_file := log_file s @ map (\<lambda>i. entry_of (df s) i iss) idxs\<rparr>"
  by (induction idxs arbitrary: s) (simp_all add: log_row_eq)

lemma fold_log_group:
  "fold log_group g s =
     s\<lparr>log_file := log_file s @
        concat (map (\<lambda>(k, idxs). map (\<lambda>i. entry_of (df s) i [duplicate_issue k idxs]) idxs) g)\<rparr>"
  by (induction g arbitrary: s) (auto simp: log_group_def fold_log_const)

lemma validate_barcodeid_eq:
  "validate_barcodeid s =
     (if df s = [] then (Some UnboundLocalError, s)
      else if distinct (map Barcode_ID (df s))
      then (Some UnboundLocalError,
            s\<lparr>log_file := log_file s @
               last_row_entry (df s) (\<lambda>idx r. barcode_issues (Barcode_ID r))\<rparr>)
      else (None,
            s\<lparr>log_file := log_file s @
               last_row_entry (df s) (\<lambda>idx r. barcode_issues (Barcode_ID r)) @
               duplicate_entries (df s)\<rparr>))"
proof -
  have "duplicate_entry (df s) k = (\<lambda>i. entry_of (df s) i [duplicate_issue k (members (df s) k)])"
    for k
    by (simp add: fun_eq_iff duplicate_entry_def)
  then show ?thesis
    by (simp add: validate_barcodeid_def barcode_loop_eq Let_def log_row_eq last_row_entry_def
        fold_log_group groups_duplicates duplicate_entries_def comp_def)
qed

lemma filter_eq_members:
  "filter (\<lambda>j. j = i) (members rows k) =
     (if i < length rows \<and> Barcode_ID (rows ! i) = Some k then [i] else [])"
proof -
  have "filter (\<lambda>j. j = i) [0..<n] = (if i < n then [i] else [])" for n
    by (induction n) auto
  then have "filter (\<lambda>j. Barcode_ID (rows ! j) = Some k) (filter (\<lambda>j. j = i) [0..<length rows]) =
             (if i < length rows \<and> Barcode_ID (rows ! i) = Some k then [i] else [])"
    by simp
  then show ?thesis
    by (simp add: members_def conj_commute)
qed

lemma concat_single:
  "distinct ks \<Longrightarrow>
   concat (map (\<lambda>k. if k = k0 then [e k] else []) ks) = (if k0 \<in> set ks then [e k0] else [])"
  by (induction ks) auto

lemma distinct_duplicated_keys: "distinct (duplicated_keys rows)"
  by (simp add: duplicated_keys_def)

lemma duplicate_entries_of_row:
  "filter (\<lambda>e. master_index e = i) (duplicate_entries rows) =
     (case Barcode_ID (rows ! i) of
        None \<Rightarrow> []
      | Some k \<Rightarrow>
          if i < length rows \<and> 1 < count_list (map Barcode_ID rows) (Some k)
          then [duplicate_entry rows k i] else [])"
proof -
  have f: "filter (\<lambda>e. master_index e = i) (map (duplicate_entry rows k) (members rows k)) =
           (if i < length rows \<and> Barcode_ID (rows ! i) = Some k then [duplicate_entry rows k i] else [])"
    for k
    using filter_eq_members [of i rows k]
    by (simp add: filter_map comp_def duplicate_entry_def entry_of_def)
  have c: "filter (\<lambda>e. master_index e = i) (duplicate_entries rows) =
           concat (map (\<lambda>k. if i < length rows \<and> Barcode_ID (rows ! i) = Some k
                             then [duplicate_entry rows k i] else []) (duplicated_keys rows))"
    by (simp add: duplicate_entries_def filter_concat comp_def f)
  show ?thesis
  proof (cases "Barcode_ID (rows ! i)")
    case None
    then show ?thesis by (simp add: c)
  next
    case (Some k0)
    show ?thesis
    proof (cases "i < length rows")
      case True
      have "(\<lambda>k. if i < length rows \<and> Barcode_ID (rows ! i) = Some k
                  then [duplicate_entry rows k i] else []) =
            (\<lambda>k. if k = k0 then [duplicate_entry rows k i] else [])"
        using True Some by auto
      then show ?thesis
        using concat_single [OF distinct_duplicated_keys, of k0 "\<lambda>k. duplicate_entry rows k i" rows]
        by (simp add: c Some True duplicated_keys_iff)
    next
      case False
      then show ?thesis by (simp add: c Some)
    qed
  qed
qed

section \<open>Building the consolidated table\<close>

lemma read_all_eq: "read_all files acc = acc @ frames_read files"
  by (induction files acc rule: read_all.induct) (simp_all add: frames_read_def)

lemma frames_read_empty: "(frames_read files = []) = list_all (\<lambda>fr. snd fr = None) files"
  by (induction files) (auto simp: frames_read_def split: option.splits)

text \<open>
  C9, as the code has it. \<open>extract_data\<close> concatenates the frames of the spreadsheets that
  could be read. It fails exactly when there is none, that is when there is no spreadsheet or
  every one failed to read: \<^verbatim>\<open>pd.concat\<close> then raises its \<^verbatim>\<open>ValueError\<close>, the
  script's empty-input error. When at least one spreadsheet was read, the result is the table
  of all their rows, file after file, also when that table has no rows.
\<close>

theorem extract_data_concat:
  "read_all files [] = frames_read files \<and>
   (frames_read files = []) = list_all (\<lambda>fr. snd fr = None) files \<and>
   (frames_read files = [] \<longrightarrow> extract_data files = Inl ValueError) \<and>
   (frames_read files \<noteq> [] \<longrightarrow> extract_data files = Inr (concat (frames_read files)))"
  by (simp add: extract_data_def pd_concat_def read_all_eq frames_read_empty)

theorem extract_data_concat_witness:
  "frames_read [(''broken.xlsx'', None)] = [] \<and>
   extract_data [(''broken.xlsx'', None)] = Inl ValueError \<and>
   frames_read ex_files = [take 2 ex_rows, drop 2 ex_rows] \<and>
   extract_data ex_files = Inr ex_rows"
proof -
  have a: "frames_read [(''broken.xlsx'', None)] = []"
    by (simp add: frames_read_def)
  have b: "frames_read ex_files = [take 2 ex_rows, drop 2 ex_rows]"
    by code_simp
  have c: "concat [take 2 ex_rows, drop 2 ex_rows] = ex_rows"
    by simp
  show ?thesis
    using extract_data_concat [of "[(''broken.xlsx'', None)]"] extract_data_concat [of ex_files] a b c
    by simp
qed

text \<open>
  C9 as stated fails when a spreadsheet is read and has no rows (a header line only): no
  spreadsheet yielded a row, yet there is a frame to concatenate and the result is the empty
  table, not an error.
\<close>

theorem header_only_spreadsheet_is_no_error:
  "concat (frames_read [(''a.xlsx'', Some [])]) = [] \<and>
   extract_data [(''a.xlsx'', Some [])] = Inr []"
  by (simp add: extract_data_def pd_concat_def frames_read_def tag_frame_def)

section \<open>The identifier validator\<close>

text \<open>
  C8. On a table whose identifier column has no value in two rows, \<open>validate_barcodeid\<close>
  ends in \<^verbatim>\<open>UnboundLocalError\<close>: \<^verbatim>\<open>grouped\<close> (on a table without rows, already
  \<^verbatim>\<open>issues\<close>) is read without having been assigned. It completes exactly on the tables
  where some value occurs in two or more rows.
\<close>

theorem validate_barcodeid_unbound:
  "(distinct (map Barcode_ID (df s)) \<longrightarrow> fst (validate_barcodeid s) = Some UnboundLocalError) \<and>
   (\<not> distinct (map Barcode_ID (df s)) \<longrightarrow> fst (validate_barcodeid s) = None)"
  by (auto simp: validate_barcodeid_eq)

theorem validate_barcodeid_unbound_witness:
  "distinct (map Barcode_ID (df ex_unique)) \<and>
   fst (validate_barcodeid ex_unique) = Some UnboundLocalError \<and>
   \<not> distinct (map Barcode_ID (df ex_state)) \<and>
   fst (validate_barcodeid ex_state) = None"
proof -
  have a: "distinct (map Barcode_ID (df ex_unique))"
    by (simp add: ex_unique_def ex_rows_def)
  have b: "\<not> distinct (map Barcode_ID (df ex_state))"
    by (simp add: ex_state_def ex_rows_def)
  show ?thesis
    using validate_barcodeid_unbound [of ex_unique] validate_barcodeid_unbound [of ex_state] a b
    by simp
qed









section \<open>The month/day/year format\<close>

lemma str_nat_small:
  "str_nat 0 = ''0''" "str_nat 1 = ''1''" "str_nat 2 = ''2''" "str_nat 3 = ''3''" "str_nat 4 = ''4''" "str_nat 5 = ''5''" "str_nat 6 = ''6''" "str_nat 7 = ''7''" "str_nat 8 = ''8''" "str_nat 9 = ''9''" "str_nat 10 = ''10''" "str_nat 11 = ''11''" "str_nat 12 = ''12''" "str_nat 13 = ''13''" "str_nat 14 = ''14''" "str_nat 15 = ''15''" "str_nat 16 = ''16''" "str_nat 17 = ''17''" "str_nat 18 = ''18''" "str_nat 19 = ''19''" "str_nat 20 = ''20''" "str_nat 21 = ''21''" "str_nat 22 = ''22''" "str_nat 23 = ''23''" "str_nat 24 = ''24''" "str_nat 25 = ''25''" "str_nat 26 = ''26''" "str_nat 27 = ''27''" "str_nat 28 = ''28''" "str_nat 29 = ''29''" "str_nat 30 = ''30''" "str_nat 31 = ''31''"
  by (simp_all add: str_nat.simps digit_char_def)

lemma digit_val_simps:
  "digit_val CHR ''0'' = 0" "digit_val CHR ''1'' = 1" "digit_val CHR ''2'' = 2"
  "digit_val CHR ''3'' = 3" "digit_val CHR ''4'' = 4" "digit_val CHR ''5'' = 5"
  "digit_val CHR ''6'' = 6" "digit_val CHR ''7'' = 7" "digit_val CHR ''8'' = 8"
  "digit_val CHR ''9'' = 9"
  by (simp_all add: digit_val_def)

lemma split_slash_iff:
  "split_slash s = Some (a, b) \<longleftrightarrow> s = a @ CHR ''/'' # b \<and> CHR ''/'' \<notin> set a"
proof
  assume "split_slash s = Some (a, b)"
  then obtain c where d: "dropWhile (\<lambda>c. c \<noteq> CHR ''/'') s = c # b"
    and a: "a = takeWhile (\<lambda>c. c \<noteq> CHR ''/'') s"
    by (auto simp: split_slash_def split: list.splits)
  from d have "c = CHR ''/''"
    using hd_dropWhile [of "\<lambda>c. c \<noteq> CHR ''/''" s] by auto
  moreover have "s = takeWhile (\<lambda>c. c \<noteq> CHR ''/'') s @ dropWhile (\<lambda>c. c \<noteq> CHR ''/'') s"
    by simp
  moreover have "CHR ''/'' \<notin> set a"
    unfolding a by (auto dest: set_takeWhileD)
  ultimately show "s = a @ CHR ''/'' # b \<and> CHR ''/'' \<notin> set a"
    using a d by metis
next
  assume "s = a @ CHR ''/'' # b \<and> CHR ''/'' \<notin> set a"
  then have s: "s = a @ CHR ''/'' # b" and n: "\<forall>x\<in>set a. x \<noteq> CHR ''/''" by auto
  have "dropWhile (\<lambda>c. c \<noteq> CHR ''/'') s = CHR ''/'' # b"
    unfolding s using n by (simp add: dropWhile_append3)
  moreover have "takeWhile (\<lambda>c. c \<noteq> CHR ''/'') s = a"
    unfolding s using n by (simp add: takeWhile_append2)
  ultimately show "split_slash s = Some (a, b)"
    by (simp add: split_slash_def)
qed

lemma month_range: "1 \<le> m \<and> m \<le> 12 \<longleftrightarrow> m \<in> {1, 2, 3, 4, 5, 6, 7, 8, 9, 10, 11, 12::nat}"
  by (simp, arith)

lemma day_range:
  "1 \<le> d \<and> d \<le> 31 \<longleftrightarrow>
   d \<in> {1, 2, 3, 4, 5, 6, 7, 8, 9, 10, 11, 12, 13, 14, 15, 16, 17, 18, 19, 20, 21, 22, 23, 24,
        25, 26, 27, 28, 29, 30, 31::nat}"
  by (simp, arith)

lemma str_nat_Suc_0: "str_nat (Suc 0) = ''1''"
  using str_nat_small(2) by simp

lemma month_tok_sound:
  "month_tok mt = Some m \<Longrightarrow>
   1 \<le> m \<and> m \<le> 12 \<and> (mt = str_nat m \<or> mt = zfill 2 (str_nat m))"
  by (erule month_tok.elims)
     (auto simp: is_digit19_def digit_val_simps str_nat_small str_nat_Suc_0 zfill_def split: if_splits)

lemma month_tok_complete:
  "1 \<le> m \<and> m \<le> 12 \<Longrightarrow> mt = str_nat m \<or> mt = zfill 2 (str_nat m) \<Longrightarrow> month_tok mt = Some m"
  unfolding month_range
  by (auto simp: is_digit19_def digit_val_simps str_nat_small str_nat_Suc_0 zfill_def)

lemma day_tok_sound:
  "day_tok dt = Some d \<Longrightarrow>
   1 \<le> d \<and> d \<le> 31 \<and>
   (dt = str_nat d \<or> dt = zfill 2 (str_nat d) \<or> d < 10 \<and> dt = '' '' @ str_nat d)"
  by (erule day_tok.elims)
     (auto simp: is_digit19_def is_digit_def digit_val_simps str_nat_small str_nat_Suc_0 zfill_def split: if_splits)

lemma day_tok_complete:
  "1 \<le> d \<and> d \<le> 31 \<Longrightarrow>
   dt = str_nat d \<or> dt = zfill 2 (str_nat d) \<or> d < 10 \<and> dt = '' '' @ str_nat d \<Longrightarrow>
   day_tok dt = Some d"
  unfolding day_range
  by (auto simp: is_digit19_def is_digit_def digit_val_simps str_nat_small str_nat_Suc_0 zfill_def)

lemma month_tok_no_slash: "month_tok mt = Some m \<Longrightarrow> CHR ''/'' \<notin> set mt"
  by (erule month_tok.elims) (auto simp: is_digit19_def split: if_splits)

lemma day_tok_no_slash: "day_tok dt = Some d \<Longrightarrow> CHR ''/'' \<notin> set dt"
  by (erule day_tok.elims) (auto simp: is_digit19_def is_digit_def split: if_splits)

lemma digit_char_cases:
  "k < 10 \<Longrightarrow> k \<in> {0, 1, 2, 3, 4, 5, 6, 7, 8, 9::nat}"
  by (simp, arith)

lemma digit_char_digit: "k < 10 \<Longrightarrow> is_digit (digit_char k) \<and> digit_val (digit_char k) = k"
  by (drule digit_char_cases) (auto simp: digit_char_def is_digit_def digit_val_simps)

lemma is_digit_char: "is_digit c \<Longrightarrow> digit_val c < 10 \<and> c = digit_char (digit_val c)"
  by (auto simp: is_digit_def digit_char_def digit_val_simps)

lemma digit_char_mod: "digit_char (n mod 10) = digit_char n"
  by (simp add: digit_char_def)

lemma str_nat_lt10: "n < 10 \<Longrightarrow> str_nat n = [digit_char n]"
  by (simp add: str_nat.simps)

lemma str_nat_ge10: "\<not> n < 10 \<Longrightarrow> str_nat n = str_nat (n div 10) @ [digit_char n]"
  by (subst str_nat.simps) simp

lemma zfill4_str_nat:
  assumes "n < 10000"
  shows "zfill 4 (str_nat n) =
           [digit_char (n div 10 div 10 div 10), digit_char (n div 10 div 10),
            digit_char (n div 10), digit_char n]"
proof -
  have z: "digit_char 0 = CHR ''0''" by (simp add: digit_char_def)
  have r: "replicate 3 c = [c, c, c]" "replicate 2 c = [c, c]" "replicate 1 c = [c]" for c :: char
    by (simp_all add: numeral_3_eq_3 numeral_2_eq_2)
  have l: "n div 10 div 10 div 10 < 10"
    using assms by simp
  consider "n < 10" | "\<not> n < 10" "n div 10 < 10"
    | "\<not> n < 10" "\<not> n div 10 < 10" "n div 10 div 10 < 10"
    | "\<not> n < 10" "\<not> n div 10 < 10" "\<not> n div 10 div 10 < 10"
    by blast
  then show ?thesis
  proof cases
    case 1
    then have "n div 10 = 0" by simp
    with 1 show ?thesis
      by (simp add: str_nat_lt10 zfill_def z r)
  next
    case 2
    then have "n div 10 div 10 = 0" by simp
    with 2 show ?thesis
      by (simp add: str_nat_ge10 str_nat_lt10 zfill_def z r)
  next
    case 3
    then have "n div 10 div 10 div 10 = 0" by simp
    with 3 show ?thesis
      by (simp add: str_nat_ge10 str_nat_lt10 zfill_def z r)
  next
    case 4
    with l show ?thesis
      by (simp add: str_nat_ge10 str_nat_lt10 zfill_def)
  qed
qed

lemma div_mod_10: "d < 10 \<Longrightarrow> (10 * q + d) div 10 = q \<and> (10 * q + d) mod 10 = (d::nat)"
  by simp

lemma digit_char_low: "d < 10 \<Longrightarrow> digit_char (10 * q + d) = digit_char d"
  by (metis digit_char_mod div_mod_10)

lemma year_tok_complete: "y < 10000 \<Longrightarrow> year_tok (zfill 4 (str_nat y)) = Some y"
proof -
  assume y: "y < 10000"
  define q1 where "q1 = y div 10"
  define q2 where "q2 = q1 div 10"
  define q3 where "q3 = q2 div 10"
  define r0 where "r0 = y mod 10"
  define r1 where "r1 = q1 mod 10"
  define r2 where "r2 = q2 mod 10"
  have d: "is_digit (digit_char k)" "digit_val (digit_char k) = k mod 10" for k
    using digit_char_digit [of "k mod 10"] by (simp_all add: digit_char_mod)
  have e: "y = 10 * q1 + r0" "q1 = 10 * q2 + r1" "q2 = 10 * q3 + r2"
    by (simp_all add: q1_def q2_def q3_def r0_def r1_def r2_def)
  have "q3 < 10" using y by (simp add: q3_def q2_def q1_def)
  then have m: "q3 mod 10 = q3" by simp
  have "1000 * q3 + 100 * r2 + 10 * r1 + r0 = y"
    using e by linarith
  then show ?thesis
    unfolding zfill4_str_nat [OF y]
    by (simp add: d q1_def [symmetric] q2_def [symmetric] q3_def [symmetric]
        r0_def [symmetric] r1_def [symmetric] r2_def [symmetric] m)
qed

lemma year_tok_sound:
  assumes h: "year_tok yt = Some y"
  shows "y < 10000 \<and> yt = zfill 4 (str_nat y)"
proof -
  obtain a b c d where yt: "yt = [a, b, c, d]"
    using h by (auto elim: year_tok.elims)
  have r: "(if is_digit a \<and> is_digit b \<and> is_digit c \<and> is_digit d
             then Some (1000 * digit_val a + 100 * digit_val b + 10 * digit_val c + digit_val d)
             else None) = Some y"
    using h unfolding yt by simp
  define A where "A = digit_val a"
  define B where "B = digit_val b"
  define C where "C = digit_val c"
  define D where "D = digit_val d"
  from r have dg: "is_digit a" "is_digit b" "is_digit c" "is_digit d"
    and y: "y = 1000 * A + 100 * B + 10 * C + D"
    by (auto simp: A_def B_def C_def D_def split: if_splits)
  have lt: "A < 10" "B < 10" "C < 10" "D < 10"
    and ch: "a = digit_char A" "b = digit_char B" "c = digit_char C" "d = digit_char D"
    using is_digit_char [OF dg(1)] is_digit_char [OF dg(2)]
      is_digit_char [OF dg(3)] is_digit_char [OF dg(4)]
    by (simp_all add: A_def B_def C_def D_def)
  have y0: "y = 10 * (100 * A + 10 * B + C) + D" using y by simp
  have q1: "y div 10 = 10 * (10 * A + B) + C"
    using div_mod_10 [OF lt(4), of "100 * A + 10 * B + C"] y0 by simp
  have q2: "(10 * (10 * A + B) + C) div 10 = 10 * A + B"
    using div_mod_10 [OF lt(3), of "10 * A + B"] by simp
  have q3: "(10 * A + B) div 10 = A"
    using div_mod_10 [OF lt(2), of A] by simp
  have m: "digit_char y = digit_char D" "digit_char (10 * (10 * A + B) + C) = digit_char C"
    "digit_char (10 * A + B) = digit_char B"
    unfolding y0 using lt by (simp_all only: digit_char_low)
  have ylt: "y < 10000" using y lt by linarith
  have "zfill 4 (str_nat y) = [a, b, c, d]"
    unfolding zfill4_str_nat [OF ylt] q1 q2 q3 m ch by simp
  then show ?thesis
    using ylt yt by simp
qed

lemma in_ns_range_midnight:
  "in_ns_range (y, m, d, 0) \<longleftrightarrow> (1677, 9, 22) \<le> (y, m, d) \<and> (y, m, d) \<le> (2262, 4, 11)"
  by (auto simp: in_ns_range_def less_eq_prod_def less_prod_def)

lemma days_in_month_eq:
  "days_in_month y m =
     (if m = 2 then if y mod 4 = 0 \<and> (y mod 100 \<noteq> 0 \<or> y mod 400 = 0) then 29 else 28
      else if m = 4 \<or> m = 6 \<or> m = 9 \<or> m = 11 then 30 else 31)"
  by (simp add: days_in_month_def is_leap_def)

lemma parse_mdy_Some:
  "parse_mdy s = Some t \<longleftrightarrow>
     (\<exists>mt dt yt m d y. s = mt @ CHR ''/'' # dt @ CHR ''/'' # yt \<and>
        CHR ''/'' \<notin> set mt \<and> CHR ''/'' \<notin> set dt \<and>
        month_tok mt = Some m \<and> day_tok dt = Some d \<and> year_tok yt = Some y \<and>
        d \<le> days_in_month y m \<and> in_ns_range (y, m, d, 0) \<and> t = (y, m, d, 0))"
proof
  assume p: "parse_mdy s = Some t"
  then obtain mt rest where s1: "split_slash s = Some (mt, rest)"
    by (auto simp: parse_mdy_def split: option.splits)
  with p obtain dt yt where s2: "split_slash rest = Some (dt, yt)"
    by (auto simp: parse_mdy_def split: option.splits)
  from p s1 s2 obtain m d y where
    "month_tok mt = Some m" "day_tok dt = Some d" "year_tok yt = Some y"
    "d \<le> days_in_month y m" "in_ns_range (y, m, d, 0)" "t = (y, m, d, 0)"
    by (auto simp: parse_mdy_def split: option.splits if_splits)
  moreover from s1 s2 have "s = mt @ CHR ''/'' # dt @ CHR ''/'' # yt"
    "CHR ''/'' \<notin> set mt" "CHR ''/'' \<notin> set dt"
    by (simp_all add: split_slash_iff)
  ultimately show "\<exists>mt dt yt m d y. s = mt @ CHR ''/'' # dt @ CHR ''/'' # yt \<and>
        CHR ''/'' \<notin> set mt \<and> CHR ''/'' \<notin> set dt \<and>
        month_tok mt = Some m \<and> day_tok dt = Some d \<and> year_tok yt = Some y \<and>
        d \<le> days_in_month y m \<and> in_ns_range (y, m, d, 0) \<and> t = (y, m, d, 0)"
    by blast
next
  assume "\<exists>mt dt yt m d y. s = mt @ CHR ''/'' # dt @ CHR ''/'' # yt \<and>
        CHR ''/'' \<notin> set mt \<and> CHR ''/'' \<notin> set dt \<and>
        month_tok mt = Some m \<and> day_tok dt = Some d \<and> year_tok yt = Some y \<and>
        d \<le> days_in_month y m \<and> in_ns_range (y, m, d, 0) \<and> t = (y, m, d, 0)"
  then obtain mt dt yt m d y where s: "s = mt @ CHR ''/'' # dt @ CHR ''/'' # yt"
    and n: "CHR ''/'' \<notin> set mt" "CHR ''/'' \<notin> set dt"
    and k: "month_tok mt = Some m" "day_tok dt = Some d" "year_tok yt = Some y"
    and v: "d \<le> days_in_month y m" "in_ns_range (y, m, d, 0)" and t: "t = (y, m, d, 0)"
    by blast
  have "split_slash s = Some (mt, dt @ CHR ''/'' # yt)"
    using s n by (simp add: split_slash_iff)
  moreover have "split_slash (dt @ CHR ''/'' # yt) = Some (dt, yt)"
    using n by (simp add: split_slash_iff)
  ultimately show "parse_mdy s = Some t"
    using k v t by (simp add: parse_mdy_def)
qed

lemma parse_mdy_iff:
  "parse_mdy s = Some t \<longleftrightarrow>
     (\<exists>y m d mt dt.
        t = (y, m, d, 0) \<and> s = mt @ ''/'' @ dt @ ''/'' @ zfill 4 (str_nat y) \<and>
        1 \<le> m \<and> m \<le> 12 \<and> (mt = str_nat m \<or> mt = zfill 2 (str_nat m)) \<and>
        1 \<le> d \<and>
        d \<le> (if m = 2 then if y mod 4 = 0 \<and> (y mod 100 \<noteq> 0 \<or> y mod 400 = 0) then 29 else 28
              else if m = 4 \<or> m = 6 \<or> m = 9 \<or> m = 11 then 30 else 31) \<and>
        (dt = str_nat d \<or> dt = zfill 2 (str_nat d) \<or> d < 10 \<and> dt = '' '' @ str_nat d) \<and>
        (1677, 9, 22) \<le> (y, m, d) \<and> (y, m, d) \<le> (2262, 4, 11))"
  (is "?L \<longleftrightarrow> ?R")
proof
  assume ?L
  then obtain mt dt yt m d y where s: "s = mt @ CHR ''/'' # dt @ CHR ''/'' # yt"
    and k: "month_tok mt = Some m" "day_tok dt = Some d" "year_tok yt = Some y"
    and v: "d \<le> days_in_month y m" "in_ns_range (y, m, d, 0)" and t: "t = (y, m, d, 0)"
    unfolding parse_mdy_Some by blast
  note ms = month_tok_sound [OF k(1)] and ds = day_tok_sound [OF k(2)]
    and ys = year_tok_sound [OF k(3)]
  have "s = mt @ ''/'' @ dt @ ''/'' @ zfill 4 (str_nat y)"
    using s ys by simp
  with t ms ds v show ?R
    unfolding days_in_month_eq in_ns_range_midnight by blast
next
  assume ?R
  then obtain y m d mt dt where t: "t = (y, m, d, 0)"
    and s: "s = mt @ ''/'' @ dt @ ''/'' @ zfill 4 (str_nat y)"
    and m: "1 \<le> m \<and> m \<le> 12" "mt = str_nat m \<or> mt = zfill 2 (str_nat m)"
    and d: "1 \<le> d" "d \<le> days_in_month y m"
      "dt = str_nat d \<or> dt = zfill 2 (str_nat d) \<or> d < 10 \<and> dt = '' '' @ str_nat d"
    and r: "in_ns_range (y, m, d, 0)"
    unfolding days_in_month_eq [symmetric] in_ns_range_midnight [symmetric] by blast
  have "days_in_month y m \<le> 31"
    by (simp add: days_in_month_def)
  with d have d31: "1 \<le> d \<and> d \<le> 31" by simp
  have "y \<le> 2262"
    using r by (auto simp: in_ns_range_def less_eq_prod_def less_prod_def)
  then have y: "y < 10000" by simp
  have km: "month_tok mt = Some m" by (rule month_tok_complete [OF m])
  have kd: "day_tok dt = Some d" by (rule day_tok_complete [OF d31 d(3)])
  have ky: "year_tok (zfill 4 (str_nat y)) = Some y" by (rule year_tok_complete [OF y])
  have "s = mt @ CHR ''/'' # dt @ CHR ''/'' # zfill 4 (str_nat y)"
    using s by simp
  then show ?L
    unfolding parse_mdy_Some
    using km kd ky month_tok_no_slash [OF km] day_tok_no_slash [OF kd] d(2) r t by blast
qed

section \<open>The collection-date validator\<close>

lemma Timestamp_less: "Timestamp (y, m, d) < Timestamp (y', m', d') \<longleftrightarrow> (y, m, d) < (y', m', d')"
  by (auto simp: Timestamp_def less_prod_def less_eq_prod_def)

lemma date_issues_stamp:
  "date_issues today (DateStamp t) =
     (if t < Timestamp start_date \<or> Timestamp today < t
      then [''Date_Collected is outside of range, date: '' @ str_timestamp t] else [])"
  by (simp add: date_issues_def)

lemma date_issues_date:
  "date_issues today (DateStamp (Timestamp d)) =
     (if d < start_date \<or> today < d
      then [''Date_Collected is outside of range, date: '' @ str_timestamp (Timestamp d)] else [])"
  by (cases d; cases today) (simp add: date_issues_stamp start_date_def Timestamp_less)

lemma parse_0213: "parse_mdy ''02/13/2020'' = Some (2020, 2, 13, 0)"
  by (simp add: parse_mdy_def split_slash_def is_digit_def is_digit19_def digit_val_def
      days_in_month_def is_leap_def in_ns_range_def less_eq_prod_def less_prod_def)

lemma parse_0214: "parse_mdy ''02/14/2020'' = Some (2020, 2, 14, 0)"
  by (simp add: parse_mdy_def split_slash_def is_digit_def is_digit19_def digit_val_def
      days_in_month_def is_leap_def in_ns_range_def less_eq_prod_def less_prod_def)

lemma parse_soon: "parse_mdy ''soon'' = None"
  by (simp add: parse_mdy_def split_slash_def)

lemma str_0213: "str_timestamp (2020, 2, 13, 0) = ''2020-02-13 00:00:00''"
  by (simp add: str_timestamp_def zfill_def str_nat.simps digit_char_def)

lemma to_datetime_stamp:
  "to_datetime (DateStamp t) =
     (if (1677, 9, 21, 764) \<le> t \<and> t \<le> (2262, 4, 11, 85636) then DateStamp t else DateNull)"
  by (simp add: to_datetime_def in_ns_range_def)

text \<open>
  C2. \<open>validate_collection_date\<close> raises nothing. It first replaces every cell of the
  column by its \<open>to_datetime\<close>. A blank cell stays null. A text cell becomes a timestamp
  exactly when it is a month (1 to 12, one or two digits), a slash, a day of that month (one or
  two digits, or a space and one digit), a slash and a year of four digits, for a day from
  1677-09-22 to 2262-04-11; the timestamp is then that day at midnight. Any other text becomes
  the null date. A cell that already is a date and time is kept when it lies in the range of a
  nanosecond timestamp and becomes the null date when it does not. The validator then appends
  one block for each row that has an issue, in row order: a null date has the issue
  \<^verbatim>\<open>Date_Collected is NA\<close>, a timestamp before 2020-02-14 or after today's midnight has
  the out-of-range issue, and every day from 2020-02-14 to today, both included, has none.
\<close>

theorem validate_collection_date_entries:
  "fst (validate_collection_date today s) = None \<and>
   df (snd (validate_collection_date today s)) =
     map (\<lambda>r. r\<lparr>Date_Collected := to_datetime (Date_Collected r)\<rparr>) (df s) \<and>
   log_file (snd (validate_collection_date today s)) =
     log_file s @ row_entries (df (snd (validate_collection_date today s)))
       (\<lambda>i. date_issues today (Date_Collected (df (snd (validate_collection_date today s)) ! i))) \<and>
   filter (\<lambda>e. master_index e = i)
       (row_entries (df (snd (validate_collection_date today s)))
          (\<lambda>i. date_issues today (Date_Collected (df (snd (validate_collection_date today s)) ! i)))) =
     (if i < length (df s) \<and> date_issues today (to_datetime (Date_Collected (df s ! i))) \<noteq> []
      then [entry_of (df (snd (validate_collection_date today s))) i
              (date_issues today (to_datetime (Date_Collected (df s ! i))))]
      else []) \<and>
   to_datetime DateNull = DateNull \<and>
   to_datetime (DateStr str) = (case parse_mdy str of None \<Rightarrow> DateNull | Some t \<Rightarrow> DateStamp t) \<and>
   to_datetime (DateStamp t) =
     (if (1677, 9, 21, 764) \<le> t \<and> t \<le> (2262, 4, 11, 85636) then DateStamp t else DateNull) \<and>
   (parse_mdy str = Some p) =
     (\<exists>y m d mt dt.
        p = (y, m, d, 0) \<and> str = mt @ ''/'' @ dt @ ''/'' @ zfill 4 (str_nat y) \<and>
        1 \<le> m \<and> m \<le> 12 \<and> (mt = str_nat m \<or> mt = zfill 2 (str_nat m)) \<and>
        1 \<le> d \<and>
        d \<le> (if m = 2 then if y mod 4 = 0 \<and> (y mod 100 \<noteq> 0 \<or> y mod 400 = 0) then 29 else 28
              else if m = 4 \<or> m = 6 \<or> m = 9 \<or> m = 11 then 30 else 31) \<and>
        (dt = str_nat d \<or> dt = zfill 2 (str_nat d) \<or> d < 10 \<and> dt = '' '' @ str_nat d) \<and>
        (1677, 9, 22) \<le> (y, m, d) \<and> (y, m, d) \<le> (2262, 4, 11)) \<and>
   (case parse_mdy str of None \<Rightarrow> True | Some (y, m, d, sec) \<Rightarrow> sec = 0) \<and>
   date_issues today DateNull = [''Date_Collected is NA''] \<and>
   date_issues today (DateStamp t) =
     (if t < Timestamp start_date \<or> Timestamp today < t
      then [''Date_Collected is outside of range, date: '' @ str_timestamp t] else []) \<and>
   (start_date \<le> day \<and> day \<le> today \<longrightarrow> date_issues today (DateStamp (Timestamp day)) = []) \<and>
   (day < start_date \<or> today < day \<longrightarrow>
      date_issues today (DateStamp (Timestamp day)) =
        [''Date_Collected is outside of range, date: '' @ str_timestamp (Timestamp day)])"
proof -
  let ?s' = "snd (validate_collection_date today s)"
  have d: "df ?s' = map (\<lambda>r. r\<lparr>Date_Collected := to_datetime (Date_Collected r)\<rparr>) (df s)"
    by (simp add: validate_collection_date_eq normalize_dates_def)
  have l: "log_file ?s' = log_file s @ row_entries (df ?s')
             (\<lambda>i. date_issues today (Date_Collected (df ?s' ! i)))"
    by (simp add: validate_collection_date_eq)
  have f: "filter (\<lambda>e. master_index e = i)
             (row_entries (df ?s') (\<lambda>i. date_issues today (Date_Collected (df ?s' ! i)))) =
           (if i < length (df s) \<and> date_issues today (to_datetime (Date_Collected (df s ! i))) \<noteq> []
            then [entry_of (df ?s') i (date_issues today (to_datetime (Date_Collected (df s ! i))))]
            else [])"
    unfolding row_entries_count by (auto simp: d)
  have p: "case parse_mdy str of None \<Rightarrow> True | Some (y, m, d, sec) \<Rightarrow> sec = 0"
    using parse_mdy_midnight [of str] by (auto split: option.splits)
  have n: "date_issues today DateNull = [''Date_Collected is NA'']"
    by (simp add: date_issues_def)
  have t: "to_datetime DateNull = DateNull"
    "to_datetime (DateStr str) = (case parse_mdy str of None \<Rightarrow> DateNull | Some t \<Rightarrow> DateStamp t)"
    by (simp_all add: to_datetime_def)
  have r: "start_date \<le> day \<and> day \<le> today \<longrightarrow> date_issues today (DateStamp (Timestamp day)) = []"
    by (auto simp: date_issues_date)
  have o: "day < start_date \<or> today < day \<longrightarrow>
      date_issues today (DateStamp (Timestamp day)) =
        [''Date_Collected is outside of range, date: '' @ str_timestamp (Timestamp day)]"
    by (simp add: date_issues_date)
  have e: "fst (validate_collection_date today s) = None"
    by (simp add: validate_collection_date_eq)
  from e d l f t to_datetime_stamp [of t] parse_mdy_iff [of str p] p n
    date_issues_stamp [of today t] r o
  show ?thesis
    by (intro conjI)
qed

theorem validate_collection_date_entries_witness:
  "map Date_Collected (df (snd (validate_collection_date ex_today ex_state))) =
     [DateStamp (2020, 2, 13, 0), DateStamp (2020, 2, 14, 0), DateNull] \<and>
   log_file (snd (validate_collection_date ex_today ex_state)) =
     [\<lparr>file_name = ''a.xlsx'', master_index = 0, source_row_index = 2,
       issues = [''Date_Collected is outside of range, date: 2020-02-13 00:00:00'']\<rparr>,
      \<lparr>file_name = ''b.xlsx'', master_index = 2, source_row_index = 2,
       issues = [''Date_Collected is NA'']\<rparr>] \<and>
   start_date \<le> (2020, 2, 14) \<and> (2020, 2, 14) \<le> ex_today \<and>
   date_issues ex_today (DateStamp (Timestamp (2020, 2, 14))) = [] \<and>
   start_date \<le> ex_today \<and> date_issues ex_today (DateStamp (Timestamp ex_today)) = [] \<and>
   (2020, 2, 13) < start_date \<and>
   date_issues ex_today (DateStamp (Timestamp (2020, 2, 13))) =
     [''Date_Collected is outside of range, date: 2020-02-13 00:00:00''] \<and>
   parse_mdy ''02/13/2020'' = Some (2020, 2, 13, 0) \<and>
   parse_mdy ''02/30/2020'' \<noteq> Some (2020, 2, 30, 0) \<and>
   to_datetime (DateStamp (2020, 2, 13, 0)) = DateStamp (2020, 2, 13, 0) \<and>
   to_datetime (DateStamp (2300, 6, 15, 0)) = DateNull \<and>
   map Date_Collected (df (snd (validate_collection_date ex_today ex_far))) = [DateNull] \<and>
   log_file (snd (validate_collection_date ex_today ex_far)) =
     [\<lparr>file_name = ''a.xlsx'', master_index = 0, source_row_index = 2,
       issues = [''Date_Collected is NA'']\<rparr>]"
proof -
  let ?s' = "snd (validate_collection_date ex_today ex_state)"
  let ?f' = "snd (validate_collection_date ex_today ex_far)"
  note t = validate_collection_date_entries [where today = ex_today and s = ex_state and i = 0
      and str = "''02/13/2020''" and p = "(2020, 2, 13, 0)" and t = "(2020, 2, 13, 0)"]
  note u = validate_collection_date_entries [where today = ex_today and s = ex_far and i = 0
      and str = "''02/30/2020''" and p = "(2020, 2, 30, 0)" and t = "(2300, 6, 15, 0)"
      and day = "(2020, 2, 14)"]
  have p1: "parse_mdy ''02/13/2020'' = Some (2020, 2, 13, 0)"
  proof -
    have "(2020::nat, 2::nat, 13::nat, 0::nat) = (2020, 2, 13, 0) \<and>
        ''02/13/2020'' = ''02'' @ ''/'' @ ''13'' @ ''/'' @ zfill 4 (str_nat 2020) \<and>
        (1::nat) \<le> 2 \<and> (2::nat) \<le> 12 \<and> (''02'' = str_nat 2 \<or> ''02'' = zfill 2 (str_nat 2)) \<and>
        (1::nat) \<le> 13 \<and>
        (13::nat) \<le> (if (2::nat) = 2 then if (2020::nat) mod 4 = 0 \<and> ((2020::nat) mod 100 \<noteq> 0 \<or> (2020::nat) mod 400 = 0) then 29 else 28
              else if (2::nat) = 4 \<or> (2::nat) = 6 \<or> (2::nat) = 9 \<or> (2::nat) = 11 then 30 else 31) \<and>
        (''13'' = str_nat 13 \<or> ''13'' = zfill 2 (str_nat 13) \<or> (13::nat) < 10 \<and> ''13'' = '' '' @ str_nat 13) \<and>
        (1677::nat, 9::nat, 22::nat) \<le> (2020, 2, 13) \<and>
        (2020::nat, 2::nat, 13::nat) \<le> (2262, 4, 11)"
      by (simp add: zfill_def str_nat.simps digit_char_def less_eq_prod_def less_prod_def)
    then show ?thesis
      unfolding t [of "(2020, 2, 14)", THEN conjunct2, THEN conjunct2, THEN conjunct2, THEN conjunct2, THEN conjunct2, THEN conjunct2, THEN conjunct2, THEN conjunct1] by blast
  qed
  have p2: "parse_mdy ''02/30/2020'' \<noteq> Some (2020, 2, 30, 0)"
    unfolding u [THEN conjunct2, THEN conjunct2, THEN conjunct2, THEN conjunct2, THEN conjunct2, THEN conjunct2, THEN conjunct2, THEN conjunct1] by auto
  have k1: "to_datetime (DateStamp (2020, 2, 13, 0)) = DateStamp (2020, 2, 13, 0)"
    using t [of "(2020, 2, 14)", THEN conjunct2, THEN conjunct2, THEN conjunct2, THEN conjunct2, THEN conjunct2, THEN conjunct2, THEN conjunct1] by (simp add: less_eq_prod_def less_prod_def)
  have k2: "to_datetime (DateStamp (2300, 6, 15, 0)) = DateNull"
    using u [THEN conjunct2, THEN conjunct2, THEN conjunct2, THEN conjunct2, THEN conjunct2, THEN conjunct2, THEN conjunct1] by (simp add: less_eq_prod_def less_prod_def)
  have dv: "df ?s' =
     [\<lparr>Barcode_ID = Some ''AB12345'', Patient_Study_ID = Some ''C001'',
       Date_Collected = DateStamp (2020, 2, 13, 0), Available = AvailStr ''X'',
       SourceFile = ''a.xlsx'', OriginalRow = 2\<rparr>,
      \<lparr>Barcode_ID = Some ''AB123456'', Patient_Study_ID = None,
       Date_Collected = DateStamp (2020, 2, 14, 0), Available = AvailStr ''N'',
       SourceFile = ''a.xlsx'', OriginalRow = 3\<rparr>,
      \<lparr>Barcode_ID = Some ''AB123456'', Patient_Study_ID = Some ''xx1'',
       Date_Collected = DateNull, Available = AvailStr ''Y'',
       SourceFile = ''b.xlsx'', OriginalRow = 2\<rparr>]"
    using t [of "(2020, 2, 14)", THEN conjunct2, THEN conjunct1]
    by (simp add: ex_state_def ex_rows_def to_datetime_def parse_0213 parse_0214 parse_soon)
  have l: "log_file ?s' =
     [\<lparr>file_name = ''a.xlsx'', master_index = 0, source_row_index = 2,
       issues = [''Date_Collected is outside of range, date: 2020-02-13 00:00:00'']\<rparr>,
      \<lparr>file_name = ''b.xlsx'', master_index = 2, source_row_index = 2,
       issues = [''Date_Collected is NA'']\<rparr>]"
    using t [of "(2020, 2, 14)", THEN conjunct2, THEN conjunct2, THEN conjunct1]
    unfolding dv
    by (simp add: row_entries_def entry_of_def date_issues_def Timestamp_def start_date_def
        ex_today_def ex_state_def str_0213 less_prod_def)
  have fv: "df ?f' =
     [\<lparr>Barcode_ID = Some ''AB123456'', Patient_Study_ID = Some ''C001'',
       Date_Collected = DateNull, Available = AvailStr ''Y'',
       SourceFile = ''a.xlsx'', OriginalRow = 2\<rparr>]"
    using u [THEN conjunct2, THEN conjunct1] by (simp add: ex_far_def k2)
  have fl: "log_file ?f' =
     [\<lparr>file_name = ''a.xlsx'', master_index = 0, source_row_index = 2,
       issues = [''Date_Collected is NA'']\<rparr>]"
    using u [THEN conjunct2, THEN conjunct2, THEN conjunct1]
    unfolding fv
    by (simp add: row_entries_def entry_of_def date_issues_def ex_far_def)
  have h: "start_date \<le> (2020, 2, 14)" "(2020, 2, 14) \<le> ex_today" "start_date \<le> ex_today"
    "(2020, 2, 13) < start_date"
    by (simp_all add: start_date_def ex_today_def less_eq_prod_def less_prod_def)
  have r1: "date_issues ex_today (DateStamp (Timestamp (2020, 2, 14))) = []"
    using t [of "(2020, 2, 14)", THEN conjunct2, THEN conjunct2, THEN conjunct2, THEN conjunct2, THEN conjunct2, THEN conjunct2, THEN conjunct2, THEN conjunct2, THEN conjunct2, THEN conjunct2, THEN conjunct2, THEN conjunct1] h by simp
  have r2: "date_issues ex_today (DateStamp (Timestamp ex_today)) = []"
    using t [of ex_today, THEN conjunct2, THEN conjunct2, THEN conjunct2, THEN conjunct2, THEN conjunct2, THEN conjunct2, THEN conjunct2, THEN conjunct2, THEN conjunct2, THEN conjunct2, THEN conjunct2, THEN conjunct1] h by simp
  have r3: "date_issues ex_today (DateStamp (Timestamp (2020, 2, 13))) =
     [''Date_Collected is outside of range, date: '' @ str_timestamp (Timestamp (2020, 2, 13))]"
    using t [of "(2020, 2, 13)", THEN conjunct2, THEN conjunct2, THEN conjunct2, THEN conjunct2, THEN conjunct2, THEN conjunct2, THEN conjunct2, THEN conjunct2, THEN conjunct2, THEN conjunct2, THEN conjunct2, THEN conjunct2] h by simp
  show ?thesis
    using dv l h r1 r2 r3 p1 p2 k1 k2 fv fl by (simp add: Timestamp_def str_0213)
qed

section \<open>What the validators leave alone\<close>

lemma kept_normalize_available: "map kept (map normalize_available rows) = map kept rows"
  by (simp add: normalize_available_def kept_def)

lemma df_validate_barcodeid: "df (snd (validate_barcodeid s)) = df s"
  by (simp add: validate_barcodeid_eq)

lemma df_validate_ptid: "df (snd (validate_ptid s)) = df s"
  by (simp add: validate_ptid_eq)

lemma df_validate_collection_date:
  "df (snd (validate_collection_date today s)) =
     map (\<lambda>r. r\<lparr>Date_Collected := to_datetime (Date_Collected r)\<rparr>) (df s)"
  by (simp add: validate_collection_date_eq normalize_dates_def)

lemma df_validate_available:
  "df (snd (validate_available s)) = map normalize_available (df s)"
  by (simp add: validate_available_eq)

lemma kept_and_then:
  assumes "\<And>s. map kept (df (snd (f s))) = map kept (df s)"
  shows "map kept (df (snd (and_then r f))) = map kept (df (snd r))"
  using assms by (cases r) (auto simp: and_then_def split: option.splits)

text \<open>
  C10. No validator removes a row or assigns a field other than \<^verbatim>\<open>Date_Collected\<close> and
  \<^verbatim>\<open>Available\<close>. The identifier and patient-ID validators leave the frame as it is;
  the date validator keeps every other field, and so does the availability validator. After
  the whole sequence, however it ends, every row still has the \<^verbatim>\<open>SourceFile\<close> and
  \<^verbatim>\<open>OriginalRow\<close> it was given when it was read.
\<close>

theorem validators_keep_provenance:
  "df (snd (validate_barcodeid s)) = df s \<and>
   df (snd (validate_ptid s)) = df s \<and>
   map kept (df (snd (validate_collection_date today s))) = map kept (df s) \<and>
   map Available (df (snd (validate_collection_date today s))) = map Available (df s) \<and>
   map kept (df (snd (validate_available s))) = map kept (df s) \<and>
   map Date_Collected (df (snd (validate_available s))) = map Date_Collected (df s) \<and>
   map kept (df (snd (validators today s))) = map kept (df s) \<and>
   map SourceFile (df (snd (validators today s))) = map SourceFile (df s) \<and>
   map OriginalRow (df (snd (validators today s))) = map OriginalRow (df s) \<and>
   length (df (snd (validators today s))) = length (df s)"
proof -
  have c: "map kept (df (snd (validate_collection_date today s))) = map kept (df s)" for s
    by (simp add: df_validate_collection_date kept_def)
  have a: "map kept (df (snd (validate_available s))) = map kept (df s)" for s
    by (simp only: df_validate_available kept_normalize_available)
  have v: "map kept (df (snd (validators today s))) = map kept (df s)"
    unfolding validators_def
    by (simp add: kept_and_then a c df_validate_ptid df_validate_barcodeid)
  have sf: "map SourceFile rows = map (\<lambda>k. fst (snd (snd k))) (map kept rows)" for rows
    by (simp add: kept_def)
  have orow: "map OriginalRow rows = map (\<lambda>k. snd (snd (snd k))) (map kept rows)" for rows
    by (simp add: kept_def)
  have len: "length (df (snd (validators today s))) = length (df s)"
    using v by (metis length_map)
  have ca: "map Available (df (snd (validate_collection_date today s))) = map Available (df s)"
    by (simp add: df_validate_collection_date)
  have ad: "map Date_Collected (df (snd (validate_available s))) = map Date_Collected (df s)"
    by (simp add: df_validate_available normalize_available_def)
  show ?thesis
    using df_validate_barcodeid [of s] df_validate_ptid [of s] c [of s] ca a [of s] ad v
      sf [of "df (snd (validators today s))"] sf [of "df s"]
      orow [of "df (snd (validators today s))"] orow [of "df s"] len
    by (simp only: simp_thms)
qed

theorem validators_keep_provenance_witness:
  "map SourceFile (df (snd (validators ex_today ex_state))) = [''a.xlsx'', ''a.xlsx'', ''b.xlsx''] \<and>
   map OriginalRow (df (snd (validators ex_today ex_state))) = [2, 3, 2] \<and>
   length (df (snd (validators ex_today ex_state))) = 3 \<and>
   df (snd (validate_barcodeid ex_state)) = ex_rows \<and>
   df (snd (validate_ptid ex_state)) = ex_rows"
  using validators_keep_provenance [of ex_state ex_today]
  by (simp add: ex_state_def ex_rows_def)

section \<open>Running the rewriting validators twice\<close>

lemma Timestamp_mono: "today \<le> today' \<Longrightarrow> Timestamp today \<le> Timestamp today'"
  by (cases today; cases today') (auto simp: Timestamp_def less_eq_prod_def less_prod_def)

lemma date_issues_later:
  "today \<le> today' \<Longrightarrow> date_issues today d = [] \<Longrightarrow> date_issues today' d = []"
  using Timestamp_mono [of today today']
  by (cases d) (auto simp: date_issues_def split: if_splits)

lemma normalized_eq: "normalized today s = snd (validate_available (snd (validate_collection_date today s)))"
  by (simp add: normalized_def date_then_available_def and_then_def validate_collection_date_eq)

lemma df_normalized:
  "df (normalized today s) =
     map (\<lambda>r. normalize_available (r\<lparr>Date_Collected := to_datetime (Date_Collected r)\<rparr>)) (df s)"
  by (simp add: normalized_eq df_validate_available df_validate_collection_date)

lemma dates_normalized:
  "map Date_Collected (df (normalized today s)) = map (\<lambda>r. to_datetime (Date_Collected r)) (df s)"
  by (simp add: df_normalized normalize_available_def)

lemma available_normalized:
  "map Available (df (normalized today s)) = map (\<lambda>r. AvailBool (available_value (Available r))) (df s)"
  by (simp add: df_normalized normalize_available_def)

lemma normalize_dates_normalized:
  "normalize_dates (normalized today s) = normalized today s"
proof -
  have "map (\<lambda>r. r\<lparr>Date_Collected := to_datetime (Date_Collected r)\<rparr>) (df (normalized today s)) =
        df (normalized today s)"
    by (simp add: df_normalized normalize_available_def to_datetime_idem)
  then show ?thesis
    by (simp add: normalize_dates_def)
qed

text \<open>
  C3, as the code has it. Run the date validator and the availability validator once, then
  again on the result, the current date not having moved backwards. Every
  \<^verbatim>\<open>Date_Collected\<close> value stays what the first run made it, and the date validator
  appends no block for a row that had no date issue on the first run. After the first run
  every \<^verbatim>\<open>Available\<close> value is a boolean; the second run keeps it a boolean but makes it
  true, whatever it was.
\<close>

theorem rerun_date_then_available:
  assumes "today \<le> today'"
  shows
    "map Date_Collected (df (normalized today' (normalized today s))) =
       map Date_Collected (df (normalized today s)) \<and>
     map Available (df (normalized today s)) =
       map (\<lambda>r. AvailBool (available_value (Available r))) (df s) \<and>
     map Available (df (normalized today' (normalized today s))) =
       map (\<lambda>r. AvailBool True) (df s) \<and>
     log_file (snd (validate_collection_date today' (normalized today s))) =
       log_file (normalized today s) @
       row_entries (df (normalized today s))
         (\<lambda>i. date_issues today' (Date_Collected (df (normalized today s) ! i))) \<and>
     (date_issues today (Date_Collected (df (normalized today s) ! i)) = [] \<longrightarrow>
        filter (\<lambda>e. master_index e = i)
          (row_entries (df (normalized today s))
             (\<lambda>i. date_issues today' (Date_Collected (df (normalized today s) ! i)))) = [])"
proof -
  let ?s1 = "normalized today s"
  have d: "map Date_Collected (df (normalized today' ?s1)) = map Date_Collected (df ?s1)"
    by (simp add: dates_normalized [of today' ?s1] df_normalized [of today s]
        normalize_available_def to_datetime_idem)
  have a2: "map Available (df (normalized today' ?s1)) = map (\<lambda>r. AvailBool True) (df s)"
    by (simp add: available_normalized [of today' ?s1] df_normalized [of today s]
        normalize_available_def available_value_def)
  have l: "log_file (snd (validate_collection_date today' ?s1)) =
       log_file ?s1 @ row_entries (df ?s1) (\<lambda>i. date_issues today' (Date_Collected (df ?s1 ! i)))"
    by (simp add: validate_collection_date_eq normalize_dates_normalized)
  have f: "date_issues today (Date_Collected (df ?s1 ! i)) = [] \<longrightarrow>
        filter (\<lambda>e. master_index e = i)
          (row_entries (df ?s1) (\<lambda>i. date_issues today' (Date_Collected (df ?s1 ! i)))) = []"
    using date_issues_later [OF assms] by (simp add: row_entries_count)
  from d available_normalized [of today s] a2 l f show ?thesis
    by (intro conjI)
qed

text \<open>
  C3 as stated fails: the second row of the example table has \<^verbatim>\<open>"N"\<close>, which the first
  run turns into false and the second run into true.
\<close>

theorem rerun_changes_available:
  "map Available (df (normalized ex_today ex_state)) =
     [AvailBool True, AvailBool False, AvailBool True] \<and>
   map Available (df (normalized ex_today (normalized ex_today ex_state))) =
     [AvailBool True, AvailBool True, AvailBool True]"
  by (simp add: df_normalized normalize_available_def available_value_def ex_state_def ex_rows_def)

theorem rerun_date_then_available_witness:
  "ex_today \<le> (2024, 7, 1) \<and>
   map Date_Collected (df (normalized ex_today ex_state)) =
     [DateStamp (2020, 2, 13, 0), DateStamp (2020, 2, 14, 0), DateNull] \<and>
   map Date_Collected (df (normalized (2024, 7, 1) (normalized ex_today ex_state))) =
     [DateStamp (2020, 2, 13, 0), DateStamp (2020, 2, 14, 0), DateNull] \<and>
   map Available (df (normalized (2024, 7, 1) (normalized ex_today ex_state))) =
     [AvailBool True, AvailBool True, AvailBool True] \<and>
   date_issues ex_today (Date_Collected (df (normalized ex_today ex_state) ! 1)) = [] \<and>
   filter (\<lambda>e. master_index e = 1)
     (row_entries (df (normalized ex_today ex_state))
        (\<lambda>i. date_issues (2024, 7, 1) (Date_Collected (df (normalized ex_today ex_state) ! i)))) = []"
proof -
  have h: "ex_today \<le> (2024, 7, 1)"
    by (simp add: ex_today_def less_eq_prod_def)
  note t = rerun_date_then_available [OF h, of ex_state 1]
  have d1: "map Date_Collected (df (normalized ex_today ex_state)) =
     [DateStamp (2020, 2, 13, 0), DateStamp (2020, 2, 14, 0), DateNull]"
    by (simp add: dates_normalized ex_state_def ex_rows_def to_datetime_def
        parse_0213 parse_0214 parse_soon)
  have i: "date_issues ex_today (Date_Collected (df (normalized ex_today ex_state) ! 1)) = []"
    by (simp add: df_normalized normalize_available_def ex_state_def ex_rows_def to_datetime_def
        parse_0214 date_issues_def Timestamp_def start_date_def ex_today_def less_prod_def)
  show ?thesis
    using t h d1 i by (simp add: ex_state_def ex_rows_def)
qed

section \<open>Duplicate identifiers\<close>

lemma distinct_count_le: "distinct xs \<Longrightarrow> count_list xs x \<le> 1"
  by (induction xs) auto

text \<open>
  C4, as the code has it. When some identifier occurs in two or more rows, the validator
  completes and its log is the old log, the block of the last row's own issue if it has one,
  and the blocks of the duplicate pass. For a text value that occurs in two or more rows, each
  row holding it has exactly one block in the duplicate pass: its file, index and original
  row, with the single issue that names the value and lists the indices of all rows holding
  it. A row whose identifier is blank has no block in the duplicate pass, however many blank
  rows there are: \<^verbatim>\<open>groupby\<close> drops blank keys.
\<close>

theorem duplicate_pass_entries:
  "(\<not> distinct (map Barcode_ID (df s)) \<longrightarrow>
      fst (validate_barcodeid s) = None \<and>
      log_file (snd (validate_barcodeid s)) =
        log_file s @ last_row_entry (df s) (\<lambda>idx r. barcode_issues (Barcode_ID r)) @
        duplicate_entries (df s)) \<and>
   (i < length (df s) \<and> Barcode_ID (df s ! i) = Some k \<and>
    1 < count_list (map Barcode_ID (df s)) (Some k) \<longrightarrow>
      \<not> distinct (map Barcode_ID (df s)) \<and>
      filter (\<lambda>e. master_index e = i) (duplicate_entries (df s)) =
        [\<lparr>file_name = SourceFile (df s ! i), master_index = i,
          source_row_index = OriginalRow (df s ! i),
          issues = [''Duplicate Barcode_ID: '' @ sq @ k @ sq @ '' found in rows: '' @
                    str_list (filter (\<lambda>j. Barcode_ID (df s ! j) = Some k) [0..<length (df s)])]\<rparr>]) \<and>
   (Barcode_ID (df s ! i) = None \<longrightarrow>
      filter (\<lambda>e. master_index e = i) (duplicate_entries (df s)) = [])"
proof -
  have a: "\<not> distinct (map Barcode_ID (df s)) \<longrightarrow>
      fst (validate_barcodeid s) = None \<and>
      log_file (snd (validate_barcodeid s)) =
        log_file s @ last_row_entry (df s) (\<lambda>idx r. barcode_issues (Barcode_ID r)) @
        duplicate_entries (df s)"
    by (auto simp: validate_barcodeid_eq)
  have b: "i < length (df s) \<and> Barcode_ID (df s ! i) = Some k \<and>
    1 < count_list (map Barcode_ID (df s)) (Some k) \<longrightarrow>
      \<not> distinct (map Barcode_ID (df s)) \<and>
      filter (\<lambda>e. master_index e = i) (duplicate_entries (df s)) =
        [\<lparr>file_name = SourceFile (df s ! i), master_index = i,
          source_row_index = OriginalRow (df s ! i),
          issues = [''Duplicate Barcode_ID: '' @ sq @ k @ sq @ '' found in rows: '' @
                    str_list (filter (\<lambda>j. Barcode_ID (df s ! j) = Some k) [0..<length (df s)])]\<rparr>]"
  proof (intro impI, elim conjE)
    assume i: "i < length (df s)" and k: "Barcode_ID (df s ! i) = Some k"
      and c: "1 < count_list (map Barcode_ID (df s)) (Some k)"
    have "\<not> distinct (map Barcode_ID (df s))"
    proof
      assume "distinct (map Barcode_ID (df s))"
      then have "count_list (map Barcode_ID (df s)) (Some k) \<le> 1"
        by (rule distinct_count_le)
      with c show False by simp
    qed
    moreover have "filter (\<lambda>e. master_index e = i) (duplicate_entries (df s)) =
        [duplicate_entry (df s) k i]"
      using i k c by (simp add: duplicate_entries_of_row)
    ultimately show "\<not> distinct (map Barcode_ID (df s)) \<and>
      filter (\<lambda>e. master_index e = i) (duplicate_entries (df s)) =
        [\<lparr>file_name = SourceFile (df s ! i), master_index = i,
          source_row_index = OriginalRow (df s ! i),
          issues = [''Duplicate Barcode_ID: '' @ sq @ k @ sq @ '' found in rows: '' @
                    str_list (filter (\<lambda>j. Barcode_ID (df s ! j) = Some k) [0..<length (df s)])]\<rparr>]"
      by (simp add: duplicate_entry_def entry_of_def duplicate_issue_def members_def)
  qed
  have c: "Barcode_ID (df s ! i) = None \<longrightarrow>
      filter (\<lambda>e. master_index e = i) (duplicate_entries (df s)) = []"
    by (simp add: duplicate_entries_of_row)
  from a b c show ?thesis by (intro conjI)
qed

theorem duplicate_pass_entries_witness:
  "\<not> distinct (map Barcode_ID (df ex_state)) \<and>
   Barcode_ID (df ex_state ! 1) = Some ''AB123456'' \<and>
   1 < count_list (map Barcode_ID (df ex_state)) (Some ''AB123456'') \<and>
   filter (\<lambda>e. master_index e = 1) (duplicate_entries (df ex_state)) =
     [\<lparr>file_name = ''a.xlsx'', master_index = 1, source_row_index = 3,
       issues = [''Duplicate Barcode_ID: '' @ sq @ ''AB123456'' @ sq @ '' found in rows: [1, 2]'']\<rparr>] \<and>
   log_file (snd (validate_barcodeid ex_state)) = duplicate_entries (df ex_state) \<and>
   Barcode_ID (df ex_blank ! 0) = None \<and>
   filter (\<lambda>e. master_index e = 0) (duplicate_entries (df ex_blank)) = []"
proof -
  note t = duplicate_pass_entries [of ex_state 1 "''AB123456''"]
  note u = duplicate_pass_entries [of ex_blank 0 "''AB123456''"]
  have h: "\<not> distinct (map Barcode_ID (df ex_state))" "1 < length (df ex_state)"
    "Barcode_ID (df ex_state ! 1) = Some ''AB123456''"
    "1 < count_list (map Barcode_ID (df ex_state)) (Some ''AB123456'')"
    "Barcode_ID (df ex_blank ! 0) = None"
    by (simp_all add: ex_state_def ex_rows_def ex_blank_def)
  have e: "str_list (filter (\<lambda>j. Barcode_ID (df ex_state ! j) = Some ''AB123456'') [0..<length (df ex_state)]) =
           ''[1, 2]''"
    by code_simp
  have l: "last_row_entry (df ex_state) (\<lambda>idx r. barcode_issues (Barcode_ID r)) = []"
    by (simp add: last_row_entry_def ex_state_def ex_rows_def barcode_issues_def str_cell_def)
  have f: "filter (\<lambda>e. master_index e = 1) (duplicate_entries (df ex_state)) =
     [\<lparr>file_name = ''a.xlsx'', master_index = 1, source_row_index = 3,
       issues = [''Duplicate Barcode_ID: '' @ sq @ ''AB123456'' @ sq @ '' found in rows: [1, 2]'']\<rparr>]"
    using t h e by (simp add: ex_state_def ex_rows_def)
  have g: "log_file (snd (validate_barcodeid ex_state)) = duplicate_entries (df ex_state)"
    using t h l by (simp add: ex_state_def)
  have b: "filter (\<lambda>e. master_index e = 0) (duplicate_entries (df ex_blank)) = []"
    using u h by blast
  show ?thesis
    using h f g b by simp
qed

text \<open>
  C4 as stated fails for blank identifiers: in a table of two rows with blank identifiers the
  blank value occurs twice, the validator completes, and the only block it writes is the last
  row's length issue. No row gets a duplicate block.
\<close>

theorem blank_duplicates_not_reported:
  "count_list (map Barcode_ID (df ex_blank)) None = 2 \<and>
   validate_barcodeid ex_blank =
     (None, ex_blank\<lparr>log_file :=
        [\<lparr>file_name = ''a.xlsx'', master_index = 1, source_row_index = 3,
          issues = [''Barcode_ID '' @ sq @ ''nan'' @ sq @ '' length is not equal to 8'']\<rparr>]\<rparr>)"
  by code_simp

section \<open>Issues computed and not logged\<close>

text \<open>
  C1 on the example table. The first row's identifier has seven characters and the loop
  computes its length issue, but the only \<^verbatim>\<open>if issues:\<close> stands after the loop and sees
  the last row's empty list: the log has no block for index 0, only the two duplicate blocks.
\<close>

theorem barcode_issue_logged_for_last_row_only:
  "barcode_issues (Barcode_ID (df ex_state ! 0)) =
     [''Barcode_ID '' @ sq @ ''AB12345'' @ sq @ '' length is not equal to 8''] \<and>
   filter (\<lambda>e. master_index e = 0) (log_file (snd (validate_barcodeid ex_state))) = [] \<and>
   map issues (log_file (snd (validate_barcodeid ex_state))) =
     [[''Duplicate Barcode_ID: '' @ sq @ ''AB123456'' @ sq @ '' found in rows: [1, 2]''],
      [''Duplicate Barcode_ID: '' @ sq @ ''AB123456'' @ sq @ '' found in rows: [1, 2]'']]"
  by code_simp

text \<open>
  C5 on the example table. The first row's \<^verbatim>\<open>Available\<close> is \<^verbatim>\<open>"X"\<close>: the loop sets
  it to true and computes the unknown-availability issue. The column comes out as booleans,
  but the \<^verbatim>\<open>if issues:\<close> after the loop sees the last row's empty list and nothing is
  logged.
\<close>

theorem unknown_availability_logged_for_last_row_only:
  "snd (available_step (0, df ex_state ! 0) (ex_state, None)) =
     Some (0, [''Availability is unknown at index: 0, check to confirm availability'']) \<and>
   map Available (df (snd (validate_available ex_state))) =
     [AvailBool True, AvailBool False, AvailBool True] \<and>
   fst (validate_available ex_state) = None \<and>
   log_file (snd (validate_available ex_state)) = []"
  by code_simp

end
